theory Spec2Isabelle
  imports Main "HOL-Library.AList"
begin

section \<open>The census data pipeline of app.py\<close>

text \<open>
  This theory embeds \<^verbatim>\<open>CensusDataManager\<close> of \<^verbatim>\<open>src/app.py\<close>: the two
  cache files, \<^verbatim>\<open>load_cache\<close>, \<^verbatim>\<open>save_cache\<close> and
  \<^verbatim>\<open>fetch_census_data\<close>, together with the two module tables they read.

  Conventions of the embedding.
  \<^item> A Python exception is a value of \<open>exn\<close>; a function that may raise returns
    \<open>exn + 'a\<close>, and each \<^verbatim>\<open>try/except\<close> of the source is a case distinction.
  \<^item> A string is a list of characters, one \<open>char\<close> for each character of the Python
    string; the names and codes of the census data are ASCII.
  \<^item> The numbers are of an arbitrary type \<open>'v\<close>, and a Python float is the NaN or
    a number (\<open>'v pyfloat\<close>). The builtin \<^verbatim>\<open>float\<close> is a parameter \<open>float_py\<close>
    that returns a float or raises. The value of a record is \<^verbatim>\<open>None\<close> (\<open>None\<close>) or a
    float (\<open>Some x\<close>); \<^verbatim>\<open>None\<close> and NaN are different values.
  \<^item> The network is a parameter \<open>net\<close> from the request to its response, and the
    requests a call issues are returned with its result.
  \<^item> A cache file is the table pandas reads from it: a list of rows, each with its
    \<^verbatim>\<open>cache_key\<close>, its \<^verbatim>\<open>timestamp\<close> cell and the record fields. A row holds the
    record as \<^verbatim>\<open>to_csv\<close> was given it, and reading it back turns a value
    \<^verbatim>\<open>None\<close>, written as an empty cell, into the float NaN (\<open>read_record\<close>). The rest
    of the CSV text is not modelled: names, codes and numbers are read back as written,
    every row has the columns of its record and no others, and a write to disk succeeds
    (a failing one is caught at line 166 and does not change what the call returns).
  \<^item> Time is an integer number of microseconds, the resolution of \<^verbatim>\<open>datetime\<close>;
    \<^verbatim>\<open>datetime.now()\<close> is the parameter \<open>now\<close>, one reading for a whole call.
\<close>

subsection \<open>JSON values and Python exceptions\<close>

datatype json =
    JNull
  | JBool bool
  | JNum string
  | JStr string
  | JArr "json list"
  | JObj "(string \<times> json) list"

datatype exn =
    ValueError
  | IndexError
  | KeyError
  | TypeError
  | AttributeError
  | OverflowError

text \<open>A Python float: the NaN, or a number.\<close>

datatype 'v pyfloat = NaN | Num 'v

text \<open>Sequencing: the first exception raised ends the computation.\<close>

definition and_then :: "exn + 'a \<Rightarrow> ('a \<Rightarrow> exn + 'b) \<Rightarrow> exn + 'b" where
  "and_then m f = (case m of Inl e \<Rightarrow> Inl e | Inr x \<Rightarrow> f x)"

text \<open>\<^verbatim>\<open>x[i]\<close> for a constant index \<open>i \<ge> 0\<close>: a list and a string are indexed (a string
  gives the one-character string), a dict has no integer key, anything else is not
  subscriptable.\<close>

fun getitem :: "json \<Rightarrow> nat \<Rightarrow> exn + json" where
  "getitem (JArr xs) i = (if i < length xs then Inr (xs ! i) else Inl IndexError)"
| "getitem (JStr s) i = (if i < length s then Inr (JStr [s ! i]) else Inl IndexError)"
| "getitem (JObj kvs) i = Inl KeyError"
| "getitem x i = Inl TypeError"

text \<open>\<^verbatim>\<open>len(data)\<close> and \<^verbatim>\<open>data[1:]\<close> followed by iteration.\<close>

fun len :: "json \<Rightarrow> exn + nat" where
  "len (JArr xs) = Inr (length xs)"
| "len (JStr s) = Inr (length s)"
| "len (JObj kvs) = Inr (length kvs)"
| "len x = Inl TypeError"

fun rows_from_1 :: "json \<Rightarrow> exn + json list" where
  "rows_from_1 (JArr xs) = Inr (drop 1 xs)"
| "rows_from_1 (JStr s) = Inr (map (\<lambda>c. JStr [c]) (drop 1 s))"
| "rows_from_1 x = Inl TypeError"

text \<open>\<^verbatim>\<open>str.zfill\<close>: zeros on the left up to the width, after a leading sign.\<close>

definition zfill :: "nat \<Rightarrow> string \<Rightarrow> string" where
  "zfill width s =
     (if width \<le> length s then s
      else (case s of
              c # cs \<Rightarrow>
                if c = CHR ''+'' \<or> c = CHR ''-''
                then c # replicate (width - length s) CHR ''0'' @ cs
                else replicate (width - length s) CHR ''0'' @ s
            | [] \<Rightarrow> replicate width CHR ''0''))"

text \<open>The method call \<^verbatim>\<open>x.zfill(width)\<close> on a JSON value: only a string has it.\<close>

fun zfill_method :: "json \<Rightarrow> nat \<Rightarrow> exn + string" where
  "zfill_method (JStr s) width = Inr (zfill width s)"
| "zfill_method x width = Inl AttributeError"

definition endswith :: "string \<Rightarrow> string \<Rightarrow> bool" where
  "endswith s suffix \<longleftrightarrow>
     length suffix \<le> length s \<and> drop (length s - length suffix) s = suffix"

subsection \<open>The module tables\<close>

record metric_config =
  variable :: string
  endpoint :: string
  positive :: bool
  description :: string

definition CENSUS_BASE_URL :: string where
  "CENSUS_BASE_URL = ''https://api.census.gov/data/2022/acs/acs1''"

definition CENSUS_API_KEY :: "string option" where
  "CENSUS_API_KEY = None"

definition SDOH_METRICS :: "(string \<times> metric_config) list" where
  "SDOH_METRICS =
    [(''Median Household Income'',
        \<lparr>variable = ''DP03_0062E'', endpoint = ''profile'', positive = True,
         description = ''Median household income in the past 12 months (in 2022 inflation-adjusted dollars)''\<rparr>),
     (''Poverty Rate'',
        \<lparr>variable = ''DP03_0119PE'', endpoint = ''profile'', positive = False,
         description = ''Percentage of population below poverty level''\<rparr>),
     (''Educational Attainment (Bachelor'' @ [CHR 0x27] @ ''s+)'',
        \<lparr>variable = ''DP02_0065PE'', endpoint = ''profile'', positive = True,
         description = ''Percentage of population 25+ with bachelor'' @ [CHR 0x27] @ ''s degree or higher''\<rparr>),
     (''Unemployment Rate'',
        \<lparr>variable = ''DP03_0005PE'', endpoint = ''profile'', positive = False,
         description = ''Unemployment rate for population 16 years and over''\<rparr>),
     (''Health Insurance Coverage'',
        \<lparr>variable = ''DP03_0096PE'', endpoint = ''profile'', positive = True,
         description = ''Percentage of population with health insurance coverage''\<rparr>)]"

definition FIPS_TO_ABBREV :: "(string \<times> string) list" where
  "FIPS_TO_ABBREV =
    [(''01'', ''AL''), (''02'', ''AK''), (''04'', ''AZ''), (''05'', ''AR''), (''06'', ''CA''),
     (''08'', ''CO''), (''09'', ''CT''), (''10'', ''DE''), (''11'', ''DC''), (''12'', ''FL''),
     (''13'', ''GA''), (''15'', ''HI''), (''16'', ''ID''), (''17'', ''IL''), (''18'', ''IN''),
     (''19'', ''IA''), (''20'', ''KS''), (''21'', ''KY''), (''22'', ''LA''), (''23'', ''ME''),
     (''24'', ''MD''), (''25'', ''MA''), (''26'', ''MI''), (''27'', ''MN''), (''28'', ''MS''),
     (''29'', ''MO''), (''30'', ''MT''), (''31'', ''NE''), (''32'', ''NV''), (''33'', ''NH''),
     (''34'', ''NJ''), (''35'', ''NM''), (''36'', ''NY''), (''37'', ''NC''), (''38'', ''ND''),
     (''39'', ''OH''), (''40'', ''OK''), (''41'', ''OR''), (''42'', ''PA''), (''44'', ''RI''),
     (''45'', ''SC''), (''46'', ''SD''), (''47'', ''TN''), (''48'', ''TX''), (''49'', ''UT''),
     (''50'', ''VT''), (''51'', ''VA''), (''53'', ''WA''), (''54'', ''WV''), (''55'', ''WI''),
     (''56'', ''WY''),
     (''1'', ''AL''), (''2'', ''AK''), (''4'', ''AZ''), (''5'', ''AR''), (''6'', ''CA''),
     (''8'', ''CO''), (''9'', ''CT'')]"

text \<open>\<^verbatim>\<open>k in d\<close> for a dict held as an association list.\<close>

definition has_key :: "('k \<times> 'a) list \<Rightarrow> 'k \<Rightarrow> bool" where
  "has_key d k \<longleftrightarrow> k \<in> set (map fst d)"

subsection \<open>Normalising the rows of a response\<close>

datatype 'v census_record =
    StateRecord json string "'v option"
  | CountyRecord json string string "'v option"

text \<open>\<open>StateRecord name fips value\<close> is the dict \<^verbatim>\<open>{'name', 'fips', 'value'}\<close> and
  \<open>CountyRecord name county_fips state_fips value\<close> the dict
  \<^verbatim>\<open>{'name', 'county_fips', 'state_fips', 'value'}\<close>.\<close>

text \<open>Line 214:
  \<^verbatim>\<open>value = float(row[0]) if row[0] not in [None, '', '-'] else None\<close>.\<close>

definition cell_value :: "(json \<Rightarrow> exn + 'v) \<Rightarrow> json \<Rightarrow> exn + 'v option" where
  "cell_value float_py x =
     (if x = JNull \<or> x = JStr [] \<or> x = JStr ''-'' then Inr None
      else and_then (float_py x) (\<lambda>v. Inr (Some v)))"

text \<open>The body of the row loop, lines 214 to 237, before the handler of line 238.
  \<open>Inr (Some r)\<close>: the record \<open>r\<close> is appended; \<open>Inr None\<close>: the \<^verbatim>\<open>continue\<close> of
  line 223; \<open>Inl e\<close>: the exception \<open>e\<close> is raised.\<close>

definition process_row ::
  "(json \<Rightarrow> exn + 'v) \<Rightarrow> string \<Rightarrow> json \<Rightarrow> exn + 'v census_record option" where
  "process_row float_py geography_level row =
     and_then (getitem row 0) (\<lambda>x0.
     and_then (cell_value float_py x0) (\<lambda>v.
     and_then (getitem row 1) (\<lambda>name.
       if geography_level = ''state'' then
         and_then (getitem row 2) (\<lambda>x2.
         and_then (zfill_method x2 2) (\<lambda>fips.
           if \<not> has_key FIPS_TO_ABBREV fips then Inr None
           else Inr (Some (StateRecord name fips v))))
       else
         and_then (getitem row 2) (\<lambda>x2.
         and_then (zfill_method x2 2) (\<lambda>state_fips.
         and_then (getitem row 3) (\<lambda>x3.
         and_then (zfill_method x3 3) (\<lambda>county_fips.
           Inr (Some (CountyRecord name county_fips state_fips v)))))))))"

text \<open>The loop of lines 211 to 239: \<^verbatim>\<open>except (ValueError, IndexError): continue\<close>
  skips the row, any other exception leaves the loop.\<close>

fun process_rows ::
  "(json \<Rightarrow> exn + 'v) \<Rightarrow> string \<Rightarrow> json list \<Rightarrow> 'v census_record list
     \<Rightarrow> exn + 'v census_record list" where
  "process_rows float_py geography_level [] processed_data = Inr processed_data"
| "process_rows float_py geography_level (row # rows) processed_data =
     (case process_row float_py geography_level row of
        Inr (Some r) \<Rightarrow> process_rows float_py geography_level rows (processed_data @ [r])
      | Inr None \<Rightarrow> process_rows float_py geography_level rows processed_data
      | Inl e \<Rightarrow>
          if e = ValueError \<or> e = IndexError
          then process_rows float_py geography_level rows processed_data
          else Inl e)"

subsection \<open>The cache files\<close>

type_synonym time = int

text \<open>\<^verbatim>\<open>timedelta(weeks=1)\<close> in microseconds.\<close>

definition cache_duration :: time where
  "cache_duration = 7 * 24 * 60 * 60 * 1000000"

text \<open>A row of a cache file. The \<^verbatim>\<open>timestamp\<close> cell is \<open>Some t\<close> when
  \<^verbatim>\<open>datetime.fromisoformat\<close> reads it as the local time \<open>t\<close>, and \<open>None\<close> when that
  call or the subtraction from \<^verbatim>\<open>datetime.now()\<close> raises.\<close>

record 'v cache_row =
  row_cache_key :: string
  row_timestamp :: "time option"
  row_record :: "'v census_record"

text \<open>\<open>Missing\<close>: \<^verbatim>\<open>os.path.exists\<close> is false. \<open>Unreadable\<close>: \<^verbatim>\<open>pd.read_csv\<close> or a
  column access raises. \<open>Table rows\<close>: the data frame read; \<open>Table []\<close> is the empty
  frame.\<close>

datatype 'v csv_file = Missing | Unreadable | Table "'v cache_row list"

record 'v disk =
  state_cache_file :: "'v csv_file"
  county_cache_file :: "'v csv_file"

type_synonym 'v cache = "(string \<times> 'v census_record list) list"

text \<open>\<^verbatim>\<open>d.update(e)\<close> on dicts, which keep the order of insertion: a key already
  present keeps its place, a new key goes to the end.\<close>

definition dict_update :: "('k \<times> 'a) list \<Rightarrow> ('k \<times> 'a) list \<Rightarrow> ('k \<times> 'a) list" where
  "dict_update d e = fold (\<lambda>(k, v). AList.update k v) e d"

text \<open>\<^verbatim>\<open>Series.unique()\<close>: the distinct values in order of first appearance.\<close>

definition unique :: "'a list \<Rightarrow> 'a list" where
  "unique xs = rev (remdups (rev xs))"

text \<open>Line 100: \<^verbatim>\<open>key_data['fips'].astype(str).str.zfill(2)\<close>, on the records that
  have the column. \<^verbatim>\<open>Series.str.zfill\<close> applies \<^verbatim>\<open>str.zfill\<close> to each string (pandas 1.5
  and later; before, it padded in front of a sign, which differs on the one-character
  strings \<^verbatim>\<open>+\<close> and \<^verbatim>\<open>-\<close> only).\<close>

fun zfill_fips :: "'v census_record \<Rightarrow> 'v census_record" where
  "zfill_fips (StateRecord name fips v) = StateRecord name (zfill 2 fips) v"
| "zfill_fips r = r"

text \<open>Lines 92 and 108, with lines 101 and 115: \<^verbatim>\<open>to_csv\<close> writes the value \<^verbatim>\<open>None\<close>
  as an empty cell, \<^verbatim>\<open>pd.read_csv\<close> reads an empty cell of the value column as the
  float NaN, and \<^verbatim>\<open>to_dict('records')\<close> returns that float. \<open>read_record r\<close> is the
  record read back from the row written for \<open>r\<close>.\<close>

fun read_record :: "'v pyfloat census_record \<Rightarrow> 'v pyfloat census_record" where
  "read_record (StateRecord name fips None) = StateRecord name fips (Some NaN)"
| "read_record (CountyRecord name county_fips state_fips None) =
     CountyRecord name county_fips state_fips (Some NaN)"
| "read_record r = r"

text \<open>A record of the state file as \<open>load_cache\<close> returns it: read back, then line 100.\<close>

definition read_state_record :: "'v pyfloat census_record \<Rightarrow> 'v pyfloat census_record" where
  "read_state_record r = zfill_fips (read_record r)"

text \<open>Lines 96 to 101 and 112 to 115: one entry per key, holding the rows of that key
  without the two cache columns.\<close>

definition key_groups ::
  "('v census_record \<Rightarrow> 'v census_record) \<Rightarrow> 'v cache_row list \<Rightarrow> 'v cache" where
  "key_groups normalise rows =
     map (\<lambda>key. (key, map (\<lambda>r. normalise (row_record r)) (filter (\<lambda>r. row_cache_key r = key) rows)))
       (unique (map row_cache_key rows))"

text \<open>Lines 93 to 95 and 109 to 111: the age of the file is read from its first row.\<close>

definition load_file ::
  "('v census_record \<Rightarrow> 'v census_record) \<Rightarrow> time \<Rightarrow> 'v csv_file \<Rightarrow> 'v cache" where
  "load_file normalise now f =
     (case f of
        Table (first # rest) \<Rightarrow>
          (case row_timestamp first of
             Some cache_time \<Rightarrow>
               if now - cache_time < cache_duration
               then key_groups normalise (first # rest) else []
           | None \<Rightarrow> [])
      | _ \<Rightarrow> [])"

definition load_cache :: "'v pyfloat disk \<Rightarrow> time \<Rightarrow> 'v pyfloat cache" where
  "load_cache d now =
     dict_update (load_file read_state_record now (state_cache_file d))
       (load_file read_record now (county_cache_file d))"

text \<open>Lines 143 to 147 and 156 to 160: the rows written for the entries of one file.\<close>

definition cache_rows :: "time \<Rightarrow> 'v cache \<Rightarrow> 'v cache_row list" where
  "cache_rows stamp entries =
     concat (map (\<lambda>(key, records).
       map (\<lambda>r. \<lparr>row_cache_key = key, row_timestamp = Some stamp, row_record = r\<rparr>) records) entries)"

definition save_cache ::
  "'v pyfloat disk \<Rightarrow> time \<Rightarrow> 'v pyfloat cache \<Rightarrow> 'v pyfloat disk" where
  "save_cache d now data =
     (let existing_data = dict_update (load_cache d now) data;
          state_data = filter (\<lambda>(key, records). endswith key ''_state'') existing_data;
          county_data = filter (\<lambda>(key, records). \<not> endswith key ''_state'') existing_data;
          state_rows = cache_rows now state_data;
          county_rows = cache_rows now county_data;
          d1 = (if state_data \<noteq> [] \<and> state_rows \<noteq> []
                then d\<lparr>state_cache_file := Table state_rows\<rparr> else d);
          d2 = (if county_data \<noteq> [] \<and> county_rows \<noteq> []
                then d1\<lparr>county_cache_file := Table county_rows\<rparr> else d1)
      in d2)"

subsection \<open>Fetching\<close>

record request =
  url :: string
  params :: "(string \<times> string) list"
  timeout :: nat

text \<open>What \<^verbatim>\<open>requests.get\<close>, \<^verbatim>\<open>raise_for_status\<close> and \<^verbatim>\<open>response.json()\<close> give:
  a transport failure, an HTTP error status, a body that is not JSON, or the decoded
  body.\<close>

datatype response = ConnectionFailed | HTTPError | InvalidJSON | Body json

text \<open>Lines 182 to 200.\<close>

definition build_request :: "metric_config \<Rightarrow> string \<Rightarrow> request" where
  "build_request metric_config geography_level =
     (let base = [(''get'', variable metric_config @ '',NAME'')];
          scoped = (if geography_level = ''state''
                    then base @ [(''for'', ''state:*'')]
                    else base @ [(''for'', ''county:*''), (''in'', ''state:'' @ geography_level)]);
          keyed = (case CENSUS_API_KEY of
                     None \<Rightarrow> scoped | Some k \<Rightarrow> scoped @ [(''key'', k)])
      in \<lparr>url = CENSUS_BASE_URL @ ''/'' @ endpoint metric_config,
          params = keyed, timeout = 30\<rparr>)"

text \<open>The result of a call: what it returns or raises, the files afterwards, and the
  requests it sent.\<close>

record 'v outcome =
  returned :: "exn + 'v census_record list"
  disk_after :: "'v disk"
  requests_sent :: "request list"

text \<open>Lines 242 and 243: \<^verbatim>\<open>cached_data[cache_key] = processed_data\<close>, then
  \<^verbatim>\<open>self.save_cache(cached_data)\<close>.\<close>

definition update_cache ::
  "'v pyfloat disk \<Rightarrow> time \<Rightarrow> 'v pyfloat cache \<Rightarrow> string \<Rightarrow> 'v pyfloat census_record list
     \<Rightarrow> 'v pyfloat disk" where
  "update_cache d now cached_data cache_key processed_data =
     save_cache d now (AList.update cache_key processed_data cached_data)"

text \<open>Lines 205 to 245 and 254, inside the \<^verbatim>\<open>try\<close>: \<open>Inr (records, d')\<close> is a normal
  return with the files \<open>d'\<close>, \<open>Inl e\<close> an exception for the handlers of lines 247 to
  252.\<close>

definition process_data ::
  "(json \<Rightarrow> exn + 'v pyfloat) \<Rightarrow> 'v pyfloat disk \<Rightarrow> time \<Rightarrow> string \<Rightarrow> string
     \<Rightarrow> 'v pyfloat cache \<Rightarrow> json
     \<Rightarrow> exn + ('v pyfloat census_record list \<times> 'v pyfloat disk)" where
  "process_data float_py d now cache_key geography_level cached_data data =
     and_then (len data) (\<lambda>n.
       if n > 1 then
         and_then (rows_from_1 data) (\<lambda>rows.
         and_then (process_rows float_py geography_level rows []) (\<lambda>processed_data.
           Inr (processed_data,
                update_cache d now cached_data cache_key processed_data)))
       else Inr ([], d))"

text \<open>Line 171: \<^verbatim>\<open>f"{metric_key}_{geography_level}"\<close>.\<close>

definition make_cache_key :: "string \<Rightarrow> string \<Rightarrow> string" where
  "make_cache_key metric_key geography_level = metric_key @ ''_'' @ geography_level"

definition fetch_census_data ::
  "(json \<Rightarrow> exn + 'v pyfloat) \<Rightarrow> (request \<Rightarrow> response) \<Rightarrow> 'v pyfloat disk \<Rightarrow> time
     \<Rightarrow> string \<Rightarrow> string \<Rightarrow> 'v pyfloat outcome" where
  "fetch_census_data float_py net d now metric_key geography_level =
     (let cache_key = make_cache_key metric_key geography_level;
          cached_data = load_cache d now
      in case map_of cached_data cache_key of
           Some records \<Rightarrow>
             \<lparr>returned = Inr records, disk_after = d, requests_sent = []\<rparr>
         | None \<Rightarrow>
             (case map_of SDOH_METRICS metric_key of
                None \<Rightarrow> \<lparr>returned = Inl KeyError, disk_after = d, requests_sent = []\<rparr>
              | Some metric_config \<Rightarrow>
                  (let req = build_request metric_config geography_level in
                   case net req of
                     Body data \<Rightarrow>
                       (case process_data float_py d now cache_key geography_level
                               cached_data data of
                          Inr (records, d') \<Rightarrow>
                            \<lparr>returned = Inr records, disk_after = d', requests_sent = [req]\<rparr>
                        | Inl e \<Rightarrow>
                            \<lparr>returned = Inr [], disk_after = d, requests_sent = [req]\<rparr>)
                   | _ \<Rightarrow> \<lparr>returned = Inr [], disk_after = d, requests_sent = [req]\<rparr>)))"

subsection \<open>The files as the program writes them\<close>

text \<open>\<open>save_cache\<close> puts the entries whose key ends with \<^verbatim>\<open>_state\<close> into the state file
  and all others into the county file. For the scopes the application uses (\<^verbatim>\<open>"state"\<close>
  or a state code) the first are records of the state shape and the others of the
  county shape. \<open>well_formed\<close> says that the two files are of that form; files that are
  missing, unreadable or empty are.\<close>

fun state_shaped :: "'v census_record \<Rightarrow> bool" where
  "state_shaped (StateRecord name fips v) = True"
| "state_shaped (CountyRecord name county_fips state_fips v) = False"

definition file_rows :: "'v csv_file \<Rightarrow> 'v cache_row list" where
  "file_rows f = (case f of Table rows \<Rightarrow> rows | _ \<Rightarrow> [])"

definition well_formed :: "'v disk \<Rightarrow> bool" where
  "well_formed d \<longleftrightarrow>
     list_all (\<lambda>r. endswith (row_cache_key r) ''_state'' \<and> state_shaped (row_record r))
       (file_rows (state_cache_file d)) \<and>
     list_all (\<lambda>r. \<not> endswith (row_cache_key r) ''_state'' \<and> \<not> state_shaped (row_record r))
       (file_rows (county_cache_file d))"


text \<open>The scopes of the application: all states, or the counties of one state.\<close>

definition valid_scope :: "string \<Rightarrow> bool" where
  "valid_scope geography_level \<longleftrightarrow>
     geography_level = ''state'' \<or> has_key FIPS_TO_ABBREV geography_level"

subsection \<open>Concrete inputs for the examples\<close>

text \<open>An instance of \<open>float_py\<close> with integer numbers: it reads a string of decimal
  digits, and a number written that way, and raises on everything else.\<close>

definition digits_value :: "string \<Rightarrow> exn + int pyfloat" where
  "digits_value s =
     (if s \<noteq> [] \<and> list_all (\<lambda>c. c \<in> set ''0123456789'') s
      then Inr (Num (fold (\<lambda>c n. 10 * n + (of_char c - 48)) s 0))
      else Inl ValueError)"

fun sample_float :: "json \<Rightarrow> exn + int pyfloat" where
  "sample_float (JStr s) = digits_value s"
| "sample_float (JNum s) = digits_value s"
| "sample_float (JBool b) = Inr (Num (if b then 1 else 0))"
| "sample_float x = Inl TypeError"

definition offline :: "request \<Rightarrow> response" where
  "offline req = ConnectionFailed"

definition replies :: "json \<Rightarrow> request \<Rightarrow> response" where
  "replies data req = Body data"

definition no_files :: "int pyfloat disk" where
  "no_files = \<lparr>state_cache_file = Missing, county_cache_file = Missing\<rparr>"

definition state_row ::
  "string \<Rightarrow> time \<Rightarrow> string \<Rightarrow> string \<Rightarrow> int \<Rightarrow> int pyfloat cache_row" where
  "state_row key stamp name fips v =
     \<lparr>row_cache_key = key, row_timestamp = Some stamp,
      row_record = StateRecord (JStr name) fips (Some (Num v))\<rparr>"

definition state_file_only :: "int pyfloat cache_row list \<Rightarrow> int pyfloat disk" where
  "state_file_only rows = \<lparr>state_cache_file = Table rows, county_cache_file = Missing\<rparr>"

section \<open>Properties\<close>

subsection \<open>Auxiliary facts\<close>

lemma and_then_simps [simp]:
  "and_then (Inl e) f = Inl e"
  "and_then (Inr x) f = f x"
  by (simp_all add: and_then_def)

lemma registered_config:
  assumes "has_key SDOH_METRICS metric_key"
  obtains cfg where "map_of SDOH_METRICS metric_key = Some cfg"
proof (cases "map_of SDOH_METRICS metric_key")
  case None
  with assms show ?thesis by (simp add: has_key_def map_of_eq_None_iff)
next
  case (Some cfg)
  then show ?thesis by (rule that)
qed

lemma fetch_hit:
  "map_of (load_cache d now) (make_cache_key metric_key geography_level) = Some records \<Longrightarrow>
   fetch_census_data float_py net d now metric_key geography_level =
     \<lparr>returned = Inr records, disk_after = d, requests_sent = []\<rparr>"
  by (simp add: fetch_census_data_def Let_def)

lemma fetch_miss:
  "map_of (load_cache d now) (make_cache_key metric_key geography_level) = None \<Longrightarrow>
   map_of SDOH_METRICS metric_key = Some cfg \<Longrightarrow>
   fetch_census_data float_py net d now metric_key geography_level =
     (case net (build_request cfg geography_level) of
        Body data \<Rightarrow>
          (case process_data float_py d now (make_cache_key metric_key geography_level)
                  geography_level (load_cache d now) data of
             Inr (records, d') \<Rightarrow>
               \<lparr>returned = Inr records, disk_after = d',
                requests_sent = [build_request cfg geography_level]\<rparr>
           | Inl e \<Rightarrow>
               \<lparr>returned = Inr [], disk_after = d,
                requests_sent = [build_request cfg geography_level]\<rparr>)
      | _ \<Rightarrow> \<lparr>returned = Inr [], disk_after = d,
                requests_sent = [build_request cfg geography_level]\<rparr>)"
  by (simp add: fetch_census_data_def Let_def)

lemma fetch_miss_unregistered:
  "map_of (load_cache d now) (make_cache_key metric_key geography_level) = None \<Longrightarrow>
   map_of SDOH_METRICS metric_key = None \<Longrightarrow>
   fetch_census_data float_py net d now metric_key geography_level =
     \<lparr>returned = Inl KeyError, disk_after = d, requests_sent = []\<rparr>"
  by (simp add: fetch_census_data_def Let_def)

lemma set_unique [simp]: "set (unique xs) = set xs"
  by (simp add: unique_def)

lemma distinct_unique [simp]: "distinct (unique xs)"
  by (simp add: unique_def)

lemma map_of_key_groups:
  "map_of (key_groups normalise rows) key =
     (if key \<in> row_cache_key ` set rows
      then Some (map (\<lambda>r. normalise (row_record r)) (filter (\<lambda>r. row_cache_key r = key) rows))
      else None)"
  by (simp add: key_groups_def map_of_map_restrict restrict_map_def)

lemma keys_key_groups [simp]:
  "map fst (key_groups normalise rows) = unique (map row_cache_key rows)"
  by (simp add: key_groups_def comp_def)

lemma distinct_dict_update:
  "distinct (map fst d) \<Longrightarrow> distinct (map fst (dict_update d e))"
  unfolding dict_update_def
  by (induction e arbitrary: d) (auto simp: distinct_update)

lemma map_of_dict_update:
  "distinct (map fst e) \<Longrightarrow> map_of (dict_update d e) = map_of d ++ map_of e"
  unfolding dict_update_def
proof (induction e arbitrary: d)
  case Nil
  then show ?case by simp
next
  case (Cons p e)
  obtain k v where p: "p = (k, v)" by (cases p)
  from Cons.prems p have k: "k \<notin> fst ` set e" and e: "distinct (map fst e)" by auto
  from k have "map_of e k = None" by (simp add: map_of_eq_None_iff)
  then have swap: "(map_of d)(k \<mapsto> v) ++ map_of e = map_of d ++ (map_of e)(k \<mapsto> v)"
    by (auto simp: map_add_def fun_eq_iff split: option.splits)
  have "map_of (fold (\<lambda>(k, v). AList.update k v) (p # e) d)
          = map_of (fold (\<lambda>(k, v). AList.update k v) e (AList.update k v d))"
    by (simp add: p)
  also have "\<dots> = map_of (AList.update k v d) ++ map_of e"
    by (rule Cons.IH [OF e])
  also have "\<dots> = (map_of d)(k \<mapsto> v) ++ map_of e"
    by (simp only: update_conv')
  also have "\<dots> = map_of d ++ (map_of e)(k \<mapsto> v)"
    by (rule swap)
  also have "\<dots> = map_of d ++ map_of (p # e)"
    by (simp only: p map_of.simps fst_conv snd_conv)
  finally show ?case .
qed

lemma distinct_load_file: "distinct (map fst (load_file normalise now f))"
  by (simp add: load_file_def split: csv_file.split list.split option.split)

lemma map_of_load_cache:
  "map_of (load_cache d now) key =
     (case map_of (load_file read_record now (county_cache_file d)) key of
        Some records \<Rightarrow> Some records
      | None \<Rightarrow> map_of (load_file read_state_record now (state_cache_file d)) key)"
  by (simp add: load_cache_def map_of_dict_update distinct_load_file map_add_def)

lemma distinct_load_cache: "distinct (map fst (load_cache d now))"
  by (simp add: load_cache_def distinct_dict_update distinct_load_file)

lemma load_file_later:
  "now \<le> later \<Longrightarrow>
   load_file normalise later f = [] \<or> load_file normalise later f = load_file normalise now f"
  by (auto simp: load_file_def split: csv_file.split list.split option.split)

lemma miss_later:
  assumes "now \<le> later" and "map_of (load_cache d now) key = None"
  shows "map_of (load_cache d later) key = None"
proof -
  from load_file_later [OF assms(1), of read_record "county_cache_file d"]
    load_file_later [OF assms(1), of read_state_record "state_cache_file d"] assms(2)
  show ?thesis
    by (auto simp: map_of_load_cache split: option.splits)
qed

lemma mappable_zfill: "has_key FIPS_TO_ABBREV (zfill 2 s) = has_key FIPS_TO_ABBREV s"
proof (cases s)
  case Nil
  then show ?thesis by (simp add: zfill_def has_key_def FIPS_TO_ABBREV_def numeral_2_eq_2)
next
  case (Cons c cs)
  show ?thesis
  proof (cases cs)
    case Nil
    with Cons show ?thesis
      by (auto simp: zfill_def has_key_def FIPS_TO_ABBREV_def)
  next
    case (Cons c' cs')
    with \<open>s = c # cs\<close> show ?thesis by (simp add: zfill_def)
  qed
qed

lemma zfill_method_Inr: "zfill_method x w = Inr s \<Longrightarrow> \<exists>t. x = JStr t \<and> s = zfill w t"
  by (cases x) auto

lemma process_row_state_Some:
  assumes "process_row float_py ''state'' row = Inr (Some r)"
  shows "\<exists>name code v. r = StateRecord name (zfill 2 code) v \<and>
           has_key FIPS_TO_ABBREV (zfill 2 code) \<and> getitem row 2 = Inr (JStr code)"
  using assms
  by (auto simp: process_row_def and_then_def split: sum.splits if_splits
      dest!: zfill_method_Inr)

lemma process_row_county_not_None:
  assumes "geography_level \<noteq> ''state''"
  shows "process_row float_py geography_level row \<noteq> Inr None"
  using assms
  by (auto simp: process_row_def and_then_def split: sum.splits)

lemma process_rows_state_mapped:
  assumes "process_rows float_py ''state'' rows acc = Inr records"
      and "\<forall>r \<in> set acc. \<exists>name fips v. r = StateRecord name fips v \<and> has_key FIPS_TO_ABBREV fips"
  shows "\<forall>r \<in> set records. \<exists>name fips v. r = StateRecord name fips v \<and> has_key FIPS_TO_ABBREV fips"
  using assms
proof (induction rows arbitrary: acc)
  case Nil
  then show ?case by simp
next
  case (Cons row rows)
  show ?case
  proof (cases "process_row float_py ''state'' row")
    case (Inl e)
    with Cons.prems(1) have "process_rows float_py ''state'' rows acc = Inr records"
      by (simp split: if_splits)
    from Cons.IH [OF this Cons.prems(2)] show ?thesis .
  next
    case (Inr res)
    show ?thesis
    proof (cases res)
      case None
      with Inr Cons.prems(1) have "process_rows float_py ''state'' rows acc = Inr records"
        by simp
      from Cons.IH [OF this Cons.prems(2)] show ?thesis .
    next
      case (Some r)
      with Inr Cons.prems(1) have step: "process_rows float_py ''state'' rows (acc @ [r]) = Inr records"
        by simp
      from Inr Some process_row_state_Some [of float_py row r]
      have "\<exists>name fips v. r = StateRecord name fips v \<and> has_key FIPS_TO_ABBREV fips"
        by blast
      with Cons.prems(2)
      have "\<forall>r \<in> set (acc @ [r]). \<exists>name fips v. r = StateRecord name fips v \<and> has_key FIPS_TO_ABBREV fips"
        by auto
      from Cons.IH [OF step this] show ?thesis .
    qed
  qed
qed

lemma load_file_no_key:
  "key \<notin> row_cache_key ` set (file_rows f) \<Longrightarrow> map_of (load_file normalise now f) key = None"
  by (auto simp: load_file_def file_rows_def map_of_key_groups
      split: csv_file.split list.split option.split)


lemma well_formed_other_file:
  assumes "well_formed d"
  shows "endswith key ''_state'' \<Longrightarrow> key \<notin> row_cache_key ` set (file_rows (county_cache_file d))"
    and "\<not> endswith key ''_state'' \<Longrightarrow> key \<notin> row_cache_key ` set (file_rows (state_cache_file d))"
  using assms by (auto simp: well_formed_def list_all_iff)

lemma map_of_load_cache_home:
  assumes "well_formed d"
  shows "map_of (load_cache d now) key =
     (if endswith key ''_state''
      then map_of (load_file read_state_record now (state_cache_file d)) key
      else map_of (load_file read_record now (county_cache_file d)) key)"
  using well_formed_other_file [OF assms, of key]
  by (auto simp: map_of_load_cache load_file_no_key split: option.split)

subsection \<open>Auxiliary facts: writing and reading back\<close>

lemma map_of_filter_key:
  "map_of (filter (\<lambda>(k, v). P k) es) key = (if P key then map_of es key else None)"
  by (induction es) auto

lemma cache_rows_Nil [simp]: "cache_rows stamp [] = []"
  by (simp add: cache_rows_def)

lemma cache_rows_Cons:
  "cache_rows stamp ((k, rs) # es) =
     map (\<lambda>r. \<lparr>row_cache_key = k, row_timestamp = Some stamp, row_record = r\<rparr>) rs
       @ cache_rows stamp es"
  by (simp add: cache_rows_def)

lemma in_cache_rows:
  "x \<in> set (cache_rows stamp es) \<longleftrightarrow>
     (\<exists>k rs r. (k, rs) \<in> set es \<and> r \<in> set rs \<and>
        x = \<lparr>row_cache_key = k, row_timestamp = Some stamp, row_record = r\<rparr>)"
  unfolding cache_rows_def by fastforce

lemma timestamp_cache_rows:
  "r \<in> set (cache_rows stamp es) \<Longrightarrow> row_timestamp r = Some stamp"
  by (auto simp: in_cache_rows)

lemma keys_cache_rows:
  "key \<in> row_cache_key ` set (cache_rows stamp es) \<longleftrightarrow> (\<exists>rs. (key, rs) \<in> set es \<and> rs \<noteq> [])"
proof
  assume "key \<in> row_cache_key ` set (cache_rows stamp es)"
  then obtain x where "x \<in> set (cache_rows stamp es)" "row_cache_key x = key"
    by auto
  then obtain rs r where "(key, rs) \<in> set es" "r \<in> set rs"
    by (auto simp: in_cache_rows)
  then show "\<exists>rs. (key, rs) \<in> set es \<and> rs \<noteq> []"
    by auto
next
  assume "\<exists>rs. (key, rs) \<in> set es \<and> rs \<noteq> []"
  then obtain rs where rs: "(key, rs) \<in> set es" "rs \<noteq> []"
    by blast
  then obtain r where "r \<in> set rs"
    by (cases rs) auto
  with rs have "\<lparr>row_cache_key = key, row_timestamp = Some stamp, row_record = r\<rparr>
      \<in> set (cache_rows stamp es)"
    unfolding in_cache_rows by blast
  then have "row_cache_key \<lparr>row_cache_key = key, row_timestamp = Some stamp, row_record = r\<rparr>
      \<in> row_cache_key ` set (cache_rows stamp es)"
    by (rule imageI)
  then show "key \<in> row_cache_key ` set (cache_rows stamp es)"
    by simp
qed

lemma filter_cache_rows_absent:
  "key \<notin> fst ` set es \<Longrightarrow> filter (\<lambda>r. row_cache_key r = key) (cache_rows stamp es) = []"
  by (auto simp: filter_empty_conv in_cache_rows) force

lemma filter_cache_rows:
  "distinct (map fst es) \<Longrightarrow>
   map row_record (filter (\<lambda>r. row_cache_key r = key) (cache_rows stamp es)) =
     (case map_of es key of Some rs \<Rightarrow> rs | None \<Rightarrow> [])"
proof (induction es)
  case Nil
  then show ?case by simp
next
  case (Cons e es)
  obtain k rs where e: "e = (k, rs)" by (cases e)
  from Cons.prems e have k: "k \<notin> fst ` set es" and d: "distinct (map fst es)" by auto
  show ?case
  proof (cases "k = key")
    case True
    with k have "filter (\<lambda>r. row_cache_key r = key) (cache_rows stamp es) = []"
      by (simp add: filter_cache_rows_absent)
    with True e show ?thesis
      by (simp add: cache_rows_Cons comp_def)
  next
    case False
    with e Cons.IH [OF d] show ?thesis
      by (simp add: cache_rows_Cons)
  qed
qed

lemma map_of_written_groups:
  assumes "distinct (map fst es)"
  shows "map_of (key_groups normalise (cache_rows stamp es)) key =
     (case map_of es key of
        Some rs \<Rightarrow> if rs = [] then None else Some (map normalise rs)
      | None \<Rightarrow> None)"
proof -
  have m: "map (\<lambda>r. normalise (row_record r))
             (filter (\<lambda>r. row_cache_key r = key) (cache_rows stamp es))
           = map normalise (case map_of es key of Some rs \<Rightarrow> rs | None \<Rightarrow> [])"
    using filter_cache_rows [OF assms, of key stamp]
    by (metis (no_types, lifting) map_map comp_def map_eq_conv)
  have k: "key \<in> row_cache_key ` set (cache_rows stamp es) \<longleftrightarrow>
           (\<exists>rs. map_of es key = Some rs \<and> rs \<noteq> [])"
    using assms by (auto simp: keys_cache_rows)
  show ?thesis
    unfolding map_of_key_groups m k
    by (auto split: option.split)
qed

lemma load_file_written:
  assumes "cache_rows stamp es \<noteq> []"
  shows "load_file normalise later (Table (cache_rows stamp es)) =
     (if later - stamp < cache_duration
      then key_groups normalise (cache_rows stamp es) else [])"
proof -
  from assms obtain first rest where fr: "cache_rows stamp es = first # rest"
    by (auto simp: neq_Nil_conv)
  then have "first \<in> set (cache_rows stamp es)" by simp
  then have "row_timestamp first = Some stamp"
    by (rule timestamp_cache_rows)
  with fr show ?thesis
    by (simp add: load_file_def)
qed

lemma save_cache_state_file:
  "state_cache_file (save_cache d now data) =
     (let rows = cache_rows now
                   (filter (\<lambda>(key, records). endswith key ''_state'')
                      (dict_update (load_cache d now) data))
      in if rows \<noteq> [] then Table rows else state_cache_file d)"
  by (auto simp: save_cache_def Let_def)

lemma save_cache_county_file:
  "county_cache_file (save_cache d now data) =
     (let rows = cache_rows now
                   (filter (\<lambda>(key, records). \<not> endswith key ''_state'')
                      (dict_update (load_cache d now) data))
      in if rows \<noteq> [] then Table rows else county_cache_file d)"
  by (auto simp: save_cache_def Let_def)

lemma length_zfill: "width \<le> length (zfill width s)"
  by (auto simp: zfill_def split: list.split)

lemma zfill_idem [simp]: "zfill width (zfill width s) = zfill width s"
  using length_zfill [of width s] by (simp add: zfill_def [of width "zfill width s"])

lemma zfill_fips_idem [simp]: "zfill_fips (zfill_fips r) = zfill_fips r"
  by (cases r) simp_all

lemma state_shaped_zfill_fips [simp]: "state_shaped (zfill_fips r) = state_shaped r"
  by (cases r) simp_all

lemma read_record_idem [simp]: "read_record (read_record r) = read_record r"
  by (cases r rule: read_record.cases) simp_all

lemma state_shaped_read_record [simp]: "state_shaped (read_record r) = state_shaped r"
  by (cases r rule: read_record.cases) simp_all

lemma read_record_zfill_fips: "read_record (zfill_fips r) = zfill_fips (read_record r)"
  by (cases r rule: read_record.cases) simp_all

lemma read_state_record_idem [simp]:
  "read_state_record (read_state_record r) = read_state_record r"
  by (simp add: read_state_record_def read_record_zfill_fips)

lemma read_record_read_state_record [simp]:
  "read_record (read_state_record r) = read_state_record r"
  by (simp add: read_state_record_def read_record_zfill_fips)

lemma state_shaped_read_state_record [simp]:
  "state_shaped (read_state_record r) = state_shaped r"
  by (simp add: read_state_record_def)

lemma read_state_record_fixed:
  "zfill_fips r = r \<Longrightarrow> read_state_record r = read_record r"
  by (simp add: read_state_record_def read_record_zfill_fips [symmetric])

lemma load_file_cases:
  "load_file normalise now f = [] \<or>
   load_file normalise now f = key_groups normalise (file_rows f)"
  by (simp add: load_file_def file_rows_def split: csv_file.split list.split option.split)

lemma loaded_entry_rows:
  assumes "map_of (load_file normalise now f) key = Some rs"
  shows "rs = map (\<lambda>r. normalise (row_record r))
                (filter (\<lambda>r. row_cache_key r = key) (file_rows f))"
    and "key \<in> row_cache_key ` set (file_rows f)"
proof -
  from assms load_file_cases [of normalise now f]
  have "map_of (key_groups normalise (file_rows f)) key = Some rs"
    by auto
  then have "rs = map (\<lambda>r. normalise (row_record r))
                (filter (\<lambda>r. row_cache_key r = key) (file_rows f))
      \<and> key \<in> row_cache_key ` set (file_rows f)"
    unfolding map_of_key_groups by (simp split: if_splits)
  then show "rs = map (\<lambda>r. normalise (row_record r))
                (filter (\<lambda>r. row_cache_key r = key) (file_rows f))"
    and "key \<in> row_cache_key ` set (file_rows f)"
    by simp_all
qed

lemma loaded_entry_nonempty:
  assumes "map_of (load_file normalise now f) key = Some rs"
  shows "rs \<noteq> []"
proof -
  from loaded_entry_rows [OF assms] show ?thesis
    by (auto simp: filter_empty_conv)
qed

lemma loaded_state_entry:
  assumes "well_formed d" and "endswith key ''_state''"
      and "map_of (load_cache d now) key = Some rs"
  shows "rs \<noteq> []" and "map read_state_record rs = rs" and "\<forall>r \<in> set rs. state_shaped r"
    and "map read_record rs = rs"
proof -
  from assms have l: "map_of (load_file read_state_record now (state_cache_file d)) key = Some rs"
    by (simp add: map_of_load_cache_home)
  from loaded_entry_nonempty [OF l] show "rs \<noteq> []" .
  from loaded_entry_rows(1) [OF l] show "map read_state_record rs = rs"
    by simp
  from loaded_entry_rows(1) [OF l] assms(1) show "\<forall>r \<in> set rs. state_shaped r"
    by (auto simp: well_formed_def list_all_iff)
  from loaded_entry_rows(1) [OF l] show "map read_record rs = rs"
    by simp
qed

lemma loaded_county_entry:
  assumes "well_formed d" and "\<not> endswith key ''_state''"
      and "map_of (load_cache d now) key = Some rs"
  shows "rs \<noteq> []" and "map read_record rs = rs" and "\<forall>r \<in> set rs. \<not> state_shaped r"
proof -
  from assms have l: "map_of (load_file read_record now (county_cache_file d)) key = Some rs"
    by (simp add: map_of_load_cache_home)
  from loaded_entry_nonempty [OF l] show "rs \<noteq> []" .
  from loaded_entry_rows(1) [OF l] show "map read_record rs = rs"
    by simp
  from loaded_entry_rows(1) [OF l] assms(1) show "\<forall>r \<in> set rs. \<not> state_shaped r"
    by (auto simp: well_formed_def list_all_iff)
qed

text \<open>The dict that \<open>save_cache\<close> builds when it is called from the fetch.\<close>

lemma distinct_existing:
  "distinct (map fst (dict_update (load_cache d now)
                        (AList.update cache_key records (load_cache d now))))"
  by (simp add: distinct_dict_update distinct_load_cache)

lemma map_of_existing:
  "map_of (dict_update (load_cache d now) (AList.update cache_key records (load_cache d now)))
     = (map_of (load_cache d now))(cache_key \<mapsto> records)"
proof -
  have "distinct (map fst (AList.update cache_key records (load_cache d now)))"
    by (simp add: distinct_update distinct_load_cache)
  then show ?thesis
    by (auto simp: map_of_dict_update update_conv' map_add_def fun_eq_iff split: option.split)
qed

lemma in_existing:
  assumes "(key, rs) \<in> set (dict_update (load_cache d now)
                                (AList.update cache_key records (load_cache d now)))"
  shows "(key = cache_key \<and> rs = records) \<or>
         (key \<noteq> cache_key \<and> map_of (load_cache d now) key = Some rs)"
proof -
  from assms distinct_existing [of d now cache_key records]
  have "map_of (dict_update (load_cache d now)
                  (AList.update cache_key records (load_cache d now))) key = Some rs"
    by simp
  then show ?thesis
    by (simp add: map_of_existing split: if_splits)
qed

lemma well_formed_update_cache:
  assumes "well_formed d"
      and "\<forall>r \<in> set records. state_shaped r \<longleftrightarrow> endswith cache_key ''_state''"
  shows "well_formed (update_cache d now (load_cache d now) cache_key records)"
proof -
  let ?E = "dict_update (load_cache d now) (AList.update cache_key records (load_cache d now))"
  have s: "endswith (row_cache_key x) ''_state'' \<and> state_shaped (row_record x)"
    if "x \<in> set (cache_rows now (filter (\<lambda>(key, records). endswith key ''_state'') ?E))" for x
  proof -
    from that obtain k rs r where x: "(k, rs) \<in> set ?E" "endswith k ''_state''" "r \<in> set rs"
        "x = \<lparr>row_cache_key = k, row_timestamp = Some now, row_record = r\<rparr>"
      by (auto simp: in_cache_rows)
    from in_existing [OF x(1)] x(2,3) assms(2) loaded_state_entry(3) [OF assms(1) x(2)]
    have "state_shaped r" by blast
    with x show ?thesis by simp
  qed
  have c: "\<not> endswith (row_cache_key x) ''_state'' \<and> \<not> state_shaped (row_record x)"
    if "x \<in> set (cache_rows now (filter (\<lambda>(key, records). \<not> endswith key ''_state'') ?E))" for x
  proof -
    from that obtain k rs r where x: "(k, rs) \<in> set ?E" "\<not> endswith k ''_state''" "r \<in> set rs"
        "x = \<lparr>row_cache_key = k, row_timestamp = Some now, row_record = r\<rparr>"
      by (auto simp: in_cache_rows)
    from in_existing [OF x(1)] x(2,3) assms(2) loaded_county_entry(3) [OF assms(1) x(2)]
    have "\<not> state_shaped r" by blast
    with x show ?thesis by simp
  qed
  from assms(1) s c show ?thesis
    by (auto simp: well_formed_def update_cache_def save_cache_state_file
        save_cache_county_file Let_def file_rows_def list_all_iff)
qed

lemma state_file_after_update:
  assumes wf: "well_formed d"
      and miss: "map_of (load_cache d now) cache_key = None"
      and later: "now \<le> later" "later - now < cache_duration"
      and k: "endswith key ''_state''"
  shows "map_of (load_file read_state_record later
                   (state_cache_file (update_cache d now (load_cache d now) cache_key records)))
           key =
         (if key = cache_key
          then (if records = [] then None else Some (map read_state_record records))
          else map_of (load_cache d now) key)"
proof -
  let ?L = "load_cache d now"
  let ?E = "dict_update ?L (AList.update cache_key records ?L)"
  let ?S = "filter (\<lambda>(key, records). endswith key ''_state'') ?E"
  let ?rows = "cache_rows now ?S"
  have dS: "distinct (map fst ?S)"
    using distinct_existing [of d now cache_key records] by (simp add: distinct_map_filter)
  have mS: "map_of ?S key = ((map_of ?L)(cache_key \<mapsto> records)) key"
    using k by (simp add: map_of_filter_key map_of_existing)
  have fl: "state_cache_file (update_cache d now ?L cache_key records) =
      (if ?rows \<noteq> [] then Table ?rows else state_cache_file d)"
    by (simp add: update_cache_def save_cache_state_file Let_def)
  have home: "map_of ?L key = map_of (load_file read_state_record now (state_cache_file d)) key"
    using k by (simp add: map_of_load_cache_home [OF wf])
  show ?thesis
  proof (cases "?rows = []")
    case False
    have "map_of (load_file read_state_record later (Table ?rows)) key =
        (case map_of ?S key of
           Some rs \<Rightarrow> if rs = [] then None else Some (map read_state_record rs)
         | None \<Rightarrow> None)"
      using later(2) by (simp add: load_file_written [OF False] map_of_written_groups [OF dS])
    also have "\<dots> = (if key = cache_key
          then (if records = [] then None else Some (map read_state_record records))
          else map_of ?L key)"
    proof (cases "key = cache_key")
      case True
      then show ?thesis unfolding mS by simp
    next
      case ne: False
      show ?thesis
      proof (cases "map_of ?L key")
        case None
        with ne show ?thesis unfolding mS by simp
      next
        case (Some rs)
        from loaded_state_entry(1,2) [OF wf k Some] ne Some show ?thesis
          unfolding mS by simp
      qed
    qed
    finally show ?thesis
      unfolding fl using False by simp
  next
    case True
    then have unchanged:
      "state_cache_file (update_cache d now ?L cache_key records) = state_cache_file d"
      by (simp add: fl)
    have empty: "rs = []" if "map_of ?S key = Some rs" for rs
    proof (rule ccontr)
      assume "rs \<noteq> []"
      moreover from that have "(key, rs) \<in> set ?S" by (rule map_of_SomeD)
      ultimately have "key \<in> row_cache_key ` set ?rows"
        unfolding keys_cache_rows by blast
      with True show False by simp
    qed
    have old: "map_of (load_file read_state_record later (state_cache_file d)) key = None"
      if "map_of (load_file read_state_record now (state_cache_file d)) key = None"
      using that load_file_later [OF later(1), of read_state_record "state_cache_file d"] by auto
    show ?thesis
    proof (cases "key = cache_key")
      case eq: True
      from empty [of records] eq have r: "records = []" unfolding mS by simp
      from miss eq home have "map_of (load_file read_state_record now (state_cache_file d)) key = None"
        by simp
      from old [OF this] eq r show ?thesis
        unfolding unchanged by simp
    next
      case ne: False
      have "map_of ?L key = None"
      proof (cases "map_of ?L key")
        case None
        then show ?thesis .
      next
        case (Some rs)
        with empty [of rs] ne have "rs = []" unfolding mS by simp
        with loaded_state_entry(1) [OF wf k Some] show ?thesis by simp
      qed
      with old home ne show ?thesis
        unfolding unchanged by simp
    qed
  qed
qed

lemma county_file_after_update:
  assumes wf: "well_formed d"
      and miss: "map_of (load_cache d now) cache_key = None"
      and later: "now \<le> later" "later - now < cache_duration"
      and k: "\<not> endswith key ''_state''"
  shows "map_of (load_file read_record later
                   (county_cache_file (update_cache d now (load_cache d now) cache_key records)))
           key =
         (if key = cache_key
          then (if records = [] then None else Some (map read_record records))
          else map_of (load_cache d now) key)"
proof -
  let ?L = "load_cache d now"
  let ?E = "dict_update ?L (AList.update cache_key records ?L)"
  let ?S = "filter (\<lambda>(key, records). \<not> endswith key ''_state'') ?E"
  let ?rows = "cache_rows now ?S"
  have dS: "distinct (map fst ?S)"
    using distinct_existing [of d now cache_key records] by (simp add: distinct_map_filter)
  have mS: "map_of ?S key = ((map_of ?L)(cache_key \<mapsto> records)) key"
    using k by (simp add: map_of_filter_key map_of_existing)
  have fl: "county_cache_file (update_cache d now ?L cache_key records) =
      (if ?rows \<noteq> [] then Table ?rows else county_cache_file d)"
    by (simp add: update_cache_def save_cache_county_file Let_def)
  have home: "map_of ?L key = map_of (load_file read_record now (county_cache_file d)) key"
    using k by (simp add: map_of_load_cache_home [OF wf])
  show ?thesis
  proof (cases "?rows = []")
    case False
    have "map_of (load_file read_record later (Table ?rows)) key =
        (case map_of ?S key of
           Some rs \<Rightarrow> if rs = [] then None else Some (map read_record rs)
         | None \<Rightarrow> None)"
      using later(2) by (simp add: load_file_written [OF False] map_of_written_groups [OF dS])
    also have "\<dots> = (if key = cache_key
          then (if records = [] then None else Some (map read_record records))
          else map_of ?L key)"
    proof (cases "key = cache_key")
      case True
      then show ?thesis unfolding mS by simp
    next
      case ne: False
      show ?thesis
      proof (cases "map_of ?L key")
        case None
        with ne show ?thesis unfolding mS by simp
      next
        case (Some rs)
        from loaded_county_entry(1,2) [OF wf k Some] ne Some show ?thesis
          unfolding mS by simp
      qed
    qed
    finally show ?thesis
      unfolding fl using False by simp
  next
    case True
    then have unchanged:
      "county_cache_file (update_cache d now ?L cache_key records) = county_cache_file d"
      by (simp add: fl)
    have empty: "rs = []" if "map_of ?S key = Some rs" for rs
    proof (rule ccontr)
      assume "rs \<noteq> []"
      moreover from that have "(key, rs) \<in> set ?S" by (rule map_of_SomeD)
      ultimately have "key \<in> row_cache_key ` set ?rows"
        unfolding keys_cache_rows by blast
      with True show False by simp
    qed
    have old: "map_of (load_file read_record later (county_cache_file d)) key = None"
      if "map_of (load_file read_record now (county_cache_file d)) key = None"
      using that load_file_later [OF later(1), of read_record "county_cache_file d"] by auto
    show ?thesis
    proof (cases "key = cache_key")
      case eq: True
      from empty [of records] eq have r: "records = []" unfolding mS by simp
      from miss eq home have "map_of (load_file read_record now (county_cache_file d)) key = None"
        by simp
      from old [OF this] eq r show ?thesis
        unfolding unchanged by simp
    next
      case ne: False
      have "map_of ?L key = None"
      proof (cases "map_of ?L key")
        case None
        then show ?thesis .
      next
        case (Some rs)
        with empty [of rs] ne have "rs = []" unfolding mS by simp
        with loaded_county_entry(1) [OF wf k Some] show ?thesis by simp
      qed
      with old home ne show ?thesis
        unfolding unchanged by simp
    qed
  qed
qed

lemma load_after_update:
  assumes "well_formed d"
      and "map_of (load_cache d now) cache_key = None"
      and "\<forall>r \<in> set records. state_shaped r \<longleftrightarrow> endswith cache_key ''_state''"
      and "now \<le> later" "later - now < cache_duration"
  shows "map_of (load_cache (update_cache d now (load_cache d now) cache_key records) later) key =
         (if key = cache_key
          then (if records = [] then None
                else Some (if endswith cache_key ''_state''
                           then map read_state_record records
                           else map read_record records))
          else map_of (load_cache d now) key)"
proof -
  have wf': "well_formed (update_cache d now (load_cache d now) cache_key records)"
    using assms(1,3) by (rule well_formed_update_cache)
  show ?thesis
  proof (cases "endswith key ''_state''")
    case True
    from state_file_after_update [OF assms(1,2,4,5) True, of records] True show ?thesis
      unfolding map_of_load_cache_home [OF wf'] by auto
  next
    case False
    from county_file_after_update [OF assms(1,2,4,5) False, of records] False show ?thesis
      unfolding map_of_load_cache_home [OF wf'] by auto
  qed
qed

lemma load_file_written_stale:
  assumes "\<not> later - stamp < cache_duration"
  shows "load_file normalise later (Table (cache_rows stamp es)) = []"
proof (cases "cache_rows stamp es = []")
  case True
  then show ?thesis by (simp add: load_file_def)
next
  case False
  from load_file_written [OF False] assms show ?thesis by simp
qed

lemma own_key_after_window:
  assumes "well_formed d"
      and "map_of (load_cache d now) cache_key = None"
      and "\<forall>r \<in> set records. state_shaped r \<longleftrightarrow> endswith cache_key ''_state''"
      and "now \<le> later" "\<not> later - now < cache_duration"
  shows "map_of (load_cache (update_cache d now (load_cache d now) cache_key records) later)
           cache_key = None"
proof -
  let ?L = "load_cache d now"
  let ?d' = "update_cache d now ?L cache_key records"
  have wf': "well_formed ?d'"
    using assms(1,3) by (rule well_formed_update_cache)
  note stale = load_file_written_stale [OF assms(5)]
  show ?thesis
  proof (cases "endswith cache_key ''_state''")
    case True
    with assms(1,2) have "map_of (load_file read_state_record now (state_cache_file d)) cache_key = None"
      by (simp add: map_of_load_cache_home)
    with load_file_later [OF assms(4), of read_state_record "state_cache_file d"]
    have "map_of (load_file read_state_record later (state_cache_file d)) cache_key = None"
      by auto
    with True show ?thesis
      unfolding map_of_load_cache_home [OF wf']
      by (simp add: update_cache_def save_cache_state_file Let_def stale)
  next
    case False
    with assms(1,2) have "map_of (load_file read_record now (county_cache_file d)) cache_key = None"
      by (simp add: map_of_load_cache_home)
    with load_file_later [OF assms(4), of read_record "county_cache_file d"]
    have "map_of (load_file read_record later (county_cache_file d)) cache_key = None"
      by auto
    with False show ?thesis
      unfolding map_of_load_cache_home [OF wf']
      by (simp add: update_cache_def save_cache_county_file Let_def stale)
  qed
qed

subsection \<open>Auxiliary facts: the records and keys of a fetch\<close>

lemma process_row_Some_shape:
  assumes "process_row float_py geography_level row = Inr (Some r)"
  shows "if geography_level = ''state'' then state_shaped r \<and> zfill_fips r = r
         else \<not> state_shaped r"
  using assms
  by (auto simp: process_row_def and_then_def split: sum.splits if_splits
      dest!: zfill_method_Inr)

lemma process_rows_all:
  assumes "process_rows float_py geography_level rows acc = Inr records"
      and "\<forall>r \<in> set acc. Q r"
      and "\<And>row r. process_row float_py geography_level row = Inr (Some r) \<Longrightarrow> Q r"
  shows "\<forall>r \<in> set records. Q r"
  using assms(1,2)
proof (induction rows arbitrary: acc)
  case Nil
  then show ?case by simp
next
  case (Cons row rows)
  show ?case
  proof (cases "process_row float_py geography_level row")
    case (Inl e)
    with Cons.prems(1) have "process_rows float_py geography_level rows acc = Inr records"
      by (simp split: if_splits)
    from Cons.IH [OF this Cons.prems(2)] show ?thesis .
  next
    case (Inr res)
    show ?thesis
    proof (cases res)
      case None
      with Inr Cons.prems(1) have "process_rows float_py geography_level rows acc = Inr records"
        by simp
      from Cons.IH [OF this Cons.prems(2)] show ?thesis .
    next
      case (Some r)
      with Inr Cons.prems(1)
      have step: "process_rows float_py geography_level rows (acc @ [r]) = Inr records"
        by simp
      from Inr Some have "Q r" by (simp add: assms(3))
      with Cons.prems(2) have "\<forall>r \<in> set (acc @ [r]). Q r" by simp
      from Cons.IH [OF step this] show ?thesis .
    qed
  qed
qed

lemma processed_shape:
  assumes "process_rows float_py geography_level rows [] = Inr records"
  shows "\<forall>r \<in> set records.
           if geography_level = ''state'' then state_shaped r \<and> zfill_fips r = r
           else \<not> state_shaped r"
  by (rule process_rows_all [OF assms]) (simp_all add: process_row_Some_shape)

lemma endswith_state_key: "endswith (make_cache_key metric_key ''state'') ''_state''"
  by (simp add: endswith_def make_cache_key_def)

lemma not_endswith_short:
  assumes "length g < 5"
  shows "\<not> endswith (make_cache_key metric_key g) ''_state''"
proof
  let ?key = "make_cache_key metric_key g"
  have l6: "length ''_state'' = 6"
    by simp
  assume "endswith ?key ''_state''"
  then have "6 \<le> length ?key \<and> drop (length ?key - 6) ?key = ''_state''"
    unfolding endswith_def l6 .
  then have len: "6 \<le> length ?key" and eq: "drop (length ?key - 6) ?key = ''_state''"
    by blast+
  define k where "k = length ?key - 6"
  define u where "u = drop k metric_key"
  have lk: "length ?key = length metric_key + 1 + length g"
    by (simp add: make_cache_key_def)
  from assms len lk have k: "k \<le> length metric_key" and lu: "length u = 5 - length g"
    by (simp_all add: k_def u_def)
  from eq have "drop k (metric_key @ ''_'' @ g) = ''_state''"
    by (simp only: k_def make_cache_key_def)
  with k have "u @ ''_'' @ g = ''_state''"
    by (simp add: u_def)
  then have "''_state'' ! length u = (u @ ''_'' @ g) ! length u"
    by simp
  also have "\<dots> = CHR ''_''"
    by (simp only: nth_append_length append_Cons)
  finally have "''_state'' ! (5 - length g) = CHR ''_''"
    by (simp only: lu)
  moreover from assms
  have "length g = 0 \<or> length g = 1 \<or> length g = 2 \<or> length g = 3 \<or> length g = 4"
    by arith
  ultimately show False
    by (elim disjE) simp_all
qed

lemma valid_scope_key:
  assumes "valid_scope geography_level"
  shows "geography_level = ''state'' \<longleftrightarrow>
         endswith (make_cache_key metric_key geography_level) ''_state''"
proof (cases "geography_level = ''state''")
  case True
  then show ?thesis by (simp add: endswith_state_key)
next
  case False
  with assms have "has_key FIPS_TO_ABBREV geography_level"
    by (simp add: valid_scope_def)
  then have "length geography_level < 5"
    by (auto simp: has_key_def FIPS_TO_ABBREV_def)
  from not_endswith_short [OF this] False show ?thesis by simp
qed

lemma process_data_Inr:
  assumes "process_data float_py d now cache_key geography_level cached_data data = Inr (records, d')"
  shows "(records = [] \<and> d' = d) \<or>
         (\<exists>rows. process_rows float_py geography_level rows [] = Inr records \<and>
                 d' = update_cache d now cached_data cache_key records)"
  using assms
  by (auto simp: process_data_def and_then_def split: sum.splits if_splits)

lemma fetch_outcome_cases:
  fixes float_py :: "json \<Rightarrow> exn + 'v pyfloat" and net d now metric_key geography_level
  defines "out \<equiv> fetch_census_data float_py net d now metric_key geography_level"
  defines "key \<equiv> make_cache_key metric_key geography_level"
  obtains
    (hit) records where "map_of (load_cache d now) key = Some records"
      "returned out = Inr records" "disk_after out = d"
  | (unchanged) "map_of (load_cache d now) key = None" "disk_after out = d"
  | (written) rows records where "map_of (load_cache d now) key = None"
      "process_rows float_py geography_level rows [] = Inr records"
      "returned out = Inr records"
      "disk_after out = update_cache d now (load_cache d now) key records"
proof (cases "map_of (load_cache d now) key")
  case (Some records)
  then show ?thesis
    using hit by (simp add: out_def key_def fetch_hit)
next
  case None
  show ?thesis
  proof (cases "map_of SDOH_METRICS metric_key")
    case no: None
    from None no show ?thesis
      using unchanged by (simp add: out_def key_def fetch_miss_unregistered)
  next
    case (Some cfg)
    note f = fetch_miss [OF None [unfolded key_def] Some, of float_py net, folded out_def key_def]
    show ?thesis
    proof (cases "net (build_request cfg geography_level)")
      case (Body data)
      show ?thesis
      proof (cases "process_data float_py d now key geography_level (load_cache d now) data")
        case (Inl e)
        with Body f None show ?thesis
          using unchanged by simp
      next
        case (Inr res)
        obtain records d' where res: "res = (records, d')" by (cases res)
        from Inr res Body f have o: "returned out = Inr records" "disk_after out = d'"
          by simp_all
        from process_data_Inr [OF Inr [unfolded res]] show ?thesis
        proof
          assume "records = [] \<and> d' = d"
          with o None show ?thesis using unchanged by simp
        next
          assume "\<exists>rows. process_rows float_py geography_level rows [] = Inr records \<and>
                 d' = update_cache d now (load_cache d now) key records"
          with o None show ?thesis using written by auto
        qed
      qed
    qed (use f None unchanged in simp_all)
  qed
qed

subsection \<open>Totality of the fetch\<close>

text \<open>
  Claim C10. For a registered metric name and any scope, \<open>fetch_census_data\<close> returns a
  list and raises nothing, whatever the response (a failed request, a body that is not
  JSON, a body of any shape) and whatever the two cache files hold.
\<close>

theorem fetch_registered_returns_list:
  assumes "has_key SDOH_METRICS metric_key"
  shows "\<exists>records.
           returned (fetch_census_data float_py net d now metric_key geography_level)
             = Inr records"
proof -
  from assms obtain cfg where cfg: "map_of SDOH_METRICS metric_key = Some cfg"
    by (rule registered_config)
  show ?thesis
  proof (cases "map_of (load_cache d now) (make_cache_key metric_key geography_level)")
    case None
    show ?thesis
      unfolding fetch_miss [OF None cfg]
      by (simp split: response.split sum.split prod.split)
  next
    case (Some records)
    then show ?thesis by (simp add: fetch_hit)
  qed
qed

text \<open>The theorem at a response whose second row is a number, with both files
  unreadable.\<close>

theorem fetch_registered_returns_list_witness:
  "has_key SDOH_METRICS ''Poverty Rate'' \<and>
   (\<exists>records.
      returned (fetch_census_data sample_float
                  (replies (JArr [JArr [], JNum ''7'']))
                  \<lparr>state_cache_file = Unreadable, county_cache_file = Unreadable\<rparr>
                  0 ''Poverty Rate'' ''state'')
        = Inr records)"
proof -
  have h: "has_key SDOH_METRICS ''Poverty Rate''"
    by (simp add: has_key_def SDOH_METRICS_def)
  from fetch_registered_returns_list [OF h] h show ?thesis by blast
qed

subsection \<open>Rows without a numeric value\<close>

text \<open>
  Claim C3. A data row whose value field is \<^verbatim>\<open>None\<close>, the empty string or the dash is
  kept when its identity fields parse, as a record with an absent value: at state scope
  when the third field is a string whose padded form is a key of \<open>FIPS_TO_ABBREV\<close>, at
  county scope when the third and fourth fields are strings. The loop appends that
  record and goes on with the next row; \<open>float_py\<close> is not consulted.
\<close>

theorem absent_value_row_kept:
  assumes "cell = JNull \<or> cell = JStr [] \<or> cell = JStr ''-''"
  shows "(has_key FIPS_TO_ABBREV (zfill 2 f) \<longrightarrow>
           process_rows float_py ''state'' (JArr (cell # name # JStr f # rest) # rows) acc
             = process_rows float_py ''state'' rows (acc @ [StateRecord name (zfill 2 f) None]))
       \<and> (geography_level \<noteq> ''state'' \<longrightarrow>
           process_rows float_py geography_level
               (JArr (cell # name # JStr sf # JStr cf # rest) # rows) acc
             = process_rows float_py geography_level rows
                 (acc @ [CountyRecord name (zfill 3 cf) (zfill 2 sf) None]))"
  using assms by (auto simp: process_row_def cell_value_def)

theorem absent_value_row_kept_witness:
  "(JStr ''-'' = JNull \<or> JStr ''-'' = JStr [] \<or> JStr ''-'' = JStr ''-'') \<and>
   has_key FIPS_TO_ABBREV (zfill 2 ''6'') \<and>
   process_rows sample_float ''state''
       [JArr [JStr ''-'', JStr ''California'', JStr ''6'']] []
     = Inr [StateRecord (JStr ''California'') ''06'' None] \<and>
   ''06'' \<noteq> ''state'' \<and>
   process_rows sample_float ''06''
       [JArr [JStr ''-'', JStr ''Alameda County, California'', JStr ''6'', JStr ''1'']] []
     = Inr [CountyRecord (JStr ''Alameda County, California'') ''001'' ''06'' None]"
proof -
  have c: "JStr ''-'' = JNull \<or> JStr ''-'' = JStr [] \<or> JStr ''-'' = JStr ''-''"
    by simp
  have k: "has_key FIPS_TO_ABBREV (zfill 2 ''6'')"
    by (simp add: has_key_def FIPS_TO_ABBREV_def zfill_def)
  have g: "''06'' \<noteq> ''state''"
    by simp
  have z: "zfill 2 ''6'' = ''06''" "zfill 3 ''1'' = ''001''"
    by code_simp+
  note kept = absent_value_row_kept [OF c, where float_py = sample_float and rows = "[]"
      and acc = "[]" and rest = "[]"]
  from kept [where f = "''6''" and name = "JStr ''California''", THEN conjunct1] k
  have s: "process_rows sample_float ''state''
             [JArr [JStr ''-'', JStr ''California'', JStr ''6'']] []
           = Inr [StateRecord (JStr ''California'') ''06'' None]"
    by (simp add: z)
  from kept [where geography_level = "''06''" and sf = "''6''" and cf = "''1''"
      and name = "JStr ''Alameda County, California''", THEN conjunct2] g
  have t: "process_rows sample_float ''06''
             [JArr [JStr ''-'', JStr ''Alameda County, California'', JStr ''6'', JStr ''1'']] []
           = Inr [CountyRecord (JStr ''Alameda County, California'') ''001'' ''06'' None]"
    by (simp add: z)
  from c k s g t show ?thesis by blast
qed

subsection \<open>Failed requests\<close>

text \<open>
  Claim C4. When the request of a registered metric that is not in the cache fails
  (transport error, HTTP error status, or a body that is not JSON), the call returns the
  empty list, raises nothing, and leaves both cache files as they were.
\<close>

theorem failed_request_returns_empty:
  assumes "map_of SDOH_METRICS metric_key = Some cfg"
      and "map_of (load_cache d now) (make_cache_key metric_key geography_level) = None"
      and "\<forall>data. net (build_request cfg geography_level) \<noteq> Body data"
  shows "fetch_census_data float_py net d now metric_key geography_level =
           \<lparr>returned = Inr [], disk_after = d,
            requests_sent = [build_request cfg geography_level]\<rparr>"
  unfolding fetch_miss [OF assms(2) assms(1)]
  using assms(3) by (cases "net (build_request cfg geography_level)") simp_all

theorem failed_request_returns_empty_witness:
  "map_of SDOH_METRICS ''Unemployment Rate'' =
     Some \<lparr>variable = ''DP03_0005PE'', endpoint = ''profile'', positive = False,
           description = ''Unemployment rate for population 16 years and over''\<rparr> \<and>
   map_of (load_cache no_files 5) (make_cache_key ''Unemployment Rate'' ''state'') = None \<and>
   fetch_census_data sample_float offline no_files 5 ''Unemployment Rate'' ''state'' =
     \<lparr>returned = Inr [], disk_after = no_files,
      requests_sent =
        [\<lparr>url = ''https://api.census.gov/data/2022/acs/acs1/profile'',
          params = [(''get'', ''DP03_0005PE,NAME''), (''for'', ''state:*'')],
          timeout = 30\<rparr>]\<rparr>"
proof -
  let ?cfg = "\<lparr>variable = ''DP03_0005PE'', endpoint = ''profile'', positive = False,
      description = ''Unemployment rate for population 16 years and over''\<rparr>"
  have c: "map_of SDOH_METRICS ''Unemployment Rate'' = Some ?cfg"
    by (simp add: SDOH_METRICS_def)
  have m: "map_of (load_cache no_files 5) (make_cache_key ''Unemployment Rate'' ''state'') = None"
    by (simp add: load_cache_def load_file_def no_files_def dict_update_def)
  have n: "\<forall>data. offline (build_request ?cfg ''state'') \<noteq> Body data"
    by (simp add: offline_def)
  have r: "build_request ?cfg ''state'' =
      \<lparr>url = ''https://api.census.gov/data/2022/acs/acs1/profile'',
       params = [(''get'', ''DP03_0005PE,NAME''), (''for'', ''state:*'')], timeout = 30\<rparr>"
    by (simp add: build_request_def CENSUS_BASE_URL_def CENSUS_API_KEY_def)
  from failed_request_returns_empty [where net = offline and float_py = sample_float, OF c m n]
    c m show ?thesis
    by (simp only: r simp_thms)
qed

subsection \<open>A response with the header row only\<close>

text \<open>
  Claim C6. When a registered metric is not in the cache and the response is a JSON array
  holding the header row only, the call returns the empty list and the cache files stay
  as they were; the key is then still absent from the cache at every later time.
\<close>

theorem header_only_response_not_cached:
  assumes "map_of SDOH_METRICS metric_key = Some cfg"
      and "map_of (load_cache d now) (make_cache_key metric_key geography_level) = None"
      and "net (build_request cfg geography_level) = Body (JArr [header])"
      and "now \<le> later"
  shows "fetch_census_data float_py net d now metric_key geography_level =
           \<lparr>returned = Inr [], disk_after = d,
            requests_sent = [build_request cfg geography_level]\<rparr> \<and>
         map_of (load_cache
                   (disk_after (fetch_census_data float_py net d now metric_key geography_level))
                   later)
           (make_cache_key metric_key geography_level) = None"
proof -
  have f: "fetch_census_data float_py net d now metric_key geography_level =
           \<lparr>returned = Inr [], disk_after = d,
            requests_sent = [build_request cfg geography_level]\<rparr>"
    unfolding fetch_miss [OF assms(2) assms(1)]
    by (simp add: assms(3) process_data_def)
  from miss_later [OF assms(4) assms(2)] show ?thesis
    by (simp add: f)
qed

theorem header_only_response_not_cached_witness:
  "map_of SDOH_METRICS ''Poverty Rate'' =
     Some \<lparr>variable = ''DP03_0119PE'', endpoint = ''profile'', positive = False,
           description = ''Percentage of population below poverty level''\<rparr> \<and>
   map_of (load_cache no_files 5) (make_cache_key ''Poverty Rate'' ''06'') = None \<and>
   (5::int) \<le> 6 \<and>
   returned (fetch_census_data sample_float
       (replies (JArr [JArr [JStr ''DP03_0119PE'', JStr ''NAME'', JStr ''state'', JStr ''county'']]))
       no_files 5 ''Poverty Rate'' ''06'') = Inr [] \<and>
   map_of (load_cache (disk_after (fetch_census_data sample_float
       (replies (JArr [JArr [JStr ''DP03_0119PE'', JStr ''NAME'', JStr ''state'', JStr ''county'']]))
       no_files 5 ''Poverty Rate'' ''06'')) 6) (make_cache_key ''Poverty Rate'' ''06'') = None"
proof -
  let ?cfg = "\<lparr>variable = ''DP03_0119PE'', endpoint = ''profile'', positive = False,
      description = ''Percentage of population below poverty level''\<rparr>"
  let ?net = "replies (JArr [JArr [JStr ''DP03_0119PE'', JStr ''NAME'', JStr ''state'', JStr ''county'']])"
  have c: "map_of SDOH_METRICS ''Poverty Rate'' = Some ?cfg"
    by (simp add: SDOH_METRICS_def)
  have m: "map_of (load_cache no_files 5) (make_cache_key ''Poverty Rate'' ''06'') = None"
    by (simp add: load_cache_def load_file_def no_files_def dict_update_def)
  have n: "?net (build_request ?cfg ''06'') =
      Body (JArr [JArr [JStr ''DP03_0119PE'', JStr ''NAME'', JStr ''state'', JStr ''county'']])"
    by (simp add: replies_def)
  have l: "(5::int) \<le> 6" by simp
  note w = header_only_response_not_cached [where net = ?net and float_py = sample_float,
      OF c m n l]
  have a: "returned (fetch_census_data sample_float ?net no_files 5 ''Poverty Rate'' ''06'')
      = Inr []"
    using w [THEN conjunct1] by simp
  from c m l a w [THEN conjunct2] show ?thesis
    by (intro conjI)
qed

subsection \<open>Unregistered metric names\<close>

text \<open>
  Claim C7 says that the metric is resolved before the cache is consulted, so that an
  unregistered name never yields cached records. The source reads the cache first (lines
  171 to 175) and indexes \<open>SDOH_METRICS\<close> afterwards (line 177): a fresh entry stored
  under the key of an unregistered name is returned.
\<close>

theorem unregistered_name_served_from_cache:
  "\<not> has_key SDOH_METRICS ''Bogus'' \<and>
   returned (fetch_census_data sample_float offline
               (state_file_only [state_row ''Bogus_state'' 0 ''Alabama'' ''01'' 5])
               1 ''Bogus'' ''state'')
     = Inr [StateRecord (JStr ''Alabama'') ''01'' (Some (Num 5))]"
  by code_simp

text \<open>
  Claim C7, amended. The cache is consulted first. For an unregistered name, a fresh
  entry stored under its key is returned; without such an entry the call raises
  \<^verbatim>\<open>KeyError\<close>. In both cases no request is sent and the files are untouched.
\<close>

theorem unregistered_name_cache_first:
  assumes "\<not> has_key SDOH_METRICS metric_key"
  shows "fetch_census_data float_py net d now metric_key geography_level =
     (case map_of (load_cache d now) (make_cache_key metric_key geography_level) of
        Some records \<Rightarrow> \<lparr>returned = Inr records, disk_after = d, requests_sent = []\<rparr>
      | None \<Rightarrow> \<lparr>returned = Inl KeyError, disk_after = d, requests_sent = []\<rparr>)"
proof -
  from assms have "map_of SDOH_METRICS metric_key = None"
    by (simp add: has_key_def map_of_eq_None_iff)
  then show ?thesis
    by (simp add: fetch_hit fetch_miss_unregistered split: option.split)
qed

theorem unregistered_name_cache_first_witness:
  "\<not> has_key SDOH_METRICS ''Bogus'' \<and>
   fetch_census_data sample_float offline no_files 1 ''Bogus'' ''state'' =
     \<lparr>returned = Inl KeyError, disk_after = no_files, requests_sent = []\<rparr>"
proof -
  have h: "\<not> has_key SDOH_METRICS ''Bogus''"
    by (simp add: has_key_def SDOH_METRICS_def)
  have m: "map_of (load_cache no_files 1) (make_cache_key ''Bogus'' ''state'') = None"
    by (simp add: load_cache_def load_file_def no_files_def dict_update_def)
  from unregistered_name_cache_first [OF h, where float_py = sample_float and net = offline
      and d = no_files and now = 1 and geography_level = "''state''"] h
  show ?thesis by (simp add: m)
qed

subsection \<open>Staleness on load\<close>

text \<open>
  Claim C1 says that staleness is decided for each entry from the entry's own timestamp,
  so that an expired entry is absent while a fresher entry of the same file is
  returned. The source reads one timestamp for the file, that of its first row (lines 94
  and 110). In the first file below the first row is expired and the fresh entry after
  it is not returned; in the second the first row is fresh and the expired entry after
  it is returned.
\<close>

theorem staleness_not_per_entry:
  "(10 - 8 < cache_duration \<and>
    map_of (load_cache
              (state_file_only
                 [state_row ''Poverty Rate_state'' (10 - cache_duration) ''Alabama'' ''01'' 15,
                  state_row ''Unemployment Rate_state'' 8 ''Alabama'' ''01'' 4])
              10)
      ''Unemployment Rate_state'' = None)
   \<and>
   (\<not> 10 - (10 - cache_duration) < cache_duration \<and>
    map_of (load_cache
              (state_file_only
                 [state_row ''Unemployment Rate_state'' 8 ''Alabama'' ''01'' 4,
                  state_row ''Poverty Rate_state'' (10 - cache_duration) ''Alabama'' ''01'' 15])
              10)
      ''Poverty Rate_state'' = Some [StateRecord (JStr ''Alabama'') ''01'' (Some (Num 15))])"
  by code_simp

text \<open>
  Claim C1, amended. Loading a file groups its rows into entries by cache key and decides
  staleness once for the file, from the timestamp of its first row: when that timestamp
  is less than the retention window old, every key of the file is returned with the
  rows of that key, in file order; otherwise, or when the timestamp cannot be read, no
  entry of the file is returned, whatever the timestamps of the other rows.
\<close>

theorem staleness_per_file:
  "map_of (load_file normalise now (Table (first # rest))) key =
     (case row_timestamp first of
        Some cache_time \<Rightarrow>
          if now - cache_time < cache_duration \<and> key \<in> row_cache_key ` set (first # rest)
          then Some (map (\<lambda>r. normalise (row_record r))
                       (filter (\<lambda>r. row_cache_key r = key) (first # rest)))
          else None
      | None \<Rightarrow> None)"
  by (simp add: load_file_def map_of_key_groups split: option.split)

subsection \<open>The expiry boundary\<close>



subsection \<open>The jurisdiction filter\<close>

text \<open>
  Claim C5. At state scope every record of the normalised result has an area code that is
  a key of \<open>FIPS_TO_ABBREV\<close>, and a row whose area code is not a key yields no record. At
  any other scope no row takes the \<^verbatim>\<open>continue\<close> of the filter, and a row whose fields
  parse is kept whatever its area codes are.
\<close>

theorem state_rows_filtered_by_jurisdiction:
  "(process_rows float_py ''state'' rows [] = Inr records \<longrightarrow>
      (\<forall>r \<in> set records. \<exists>name fips v. r = StateRecord name fips v \<and> has_key FIPS_TO_ABBREV fips))
   \<and> (getitem row 2 = Inr (JStr code) \<and> \<not> has_key FIPS_TO_ABBREV code \<longrightarrow>
        (\<forall>r. process_row float_py ''state'' row \<noteq> Inr (Some r)))
   \<and> (geography_level \<noteq> ''state'' \<longrightarrow>
        process_row float_py geography_level row \<noteq> Inr None \<and>
        (cell_value float_py cell = Inr v \<longrightarrow>
           process_row float_py geography_level (JArr (cell # name # JStr sf # JStr cf # rest))
             = Inr (Some (CountyRecord name (zfill 3 cf) (zfill 2 sf) v))))"
proof (intro conjI impI allI)
  assume "process_rows float_py ''state'' rows [] = Inr records"
  from process_rows_state_mapped [OF this]
  show "\<forall>r \<in> set records. \<exists>name fips v. r = StateRecord name fips v \<and> has_key FIPS_TO_ABBREV fips"
    by simp
next
  fix r
  assume a: "getitem row 2 = Inr (JStr code) \<and> \<not> has_key FIPS_TO_ABBREV code"
  show "process_row float_py ''state'' row \<noteq> Inr (Some r)"
  proof
    assume "process_row float_py ''state'' row = Inr (Some r)"
    from process_row_state_Some [OF this] a show False
      by (auto simp: mappable_zfill)
  qed
next
  assume "geography_level \<noteq> ''state''"
  then show "process_row float_py geography_level row \<noteq> Inr None"
    by (rule process_row_county_not_None)
next
  assume "geography_level \<noteq> ''state''" "cell_value float_py cell = Inr v"
  then show "process_row float_py geography_level (JArr (cell # name # JStr sf # JStr cf # rest))
             = Inr (Some (CountyRecord name (zfill 3 cf) (zfill 2 sf) v))"
    by (simp add: process_row_def)
qed

theorem state_rows_filtered_by_jurisdiction_witness:
  "process_rows sample_float ''state''
       [JArr [JStr ''21'', JStr ''California'', JStr ''06''],
        JArr [JStr ''22'', JStr ''Puerto Rico'', JStr ''72'']] []
     = Inr [StateRecord (JStr ''California'') ''06'' (Some (Num 21))] \<and>
   has_key FIPS_TO_ABBREV ''06'' \<and>
   getitem (JArr [JStr ''22'', JStr ''Puerto Rico'', JStr ''72'']) 2 = Inr (JStr ''72'') \<and>
   \<not> has_key FIPS_TO_ABBREV ''72'' \<and>
   process_row sample_float ''state'' (JArr [JStr ''22'', JStr ''Puerto Rico'', JStr ''72''])
     \<noteq> Inr (Some (StateRecord (JStr ''Puerto Rico'') ''72'' (Some (Num 22)))) \<and>
   ''72'' \<noteq> ''state'' \<and>
   cell_value sample_float (JStr ''23'') = Inr (Some (Num 23)) \<and>
   process_row sample_float ''72''
       (JArr [JStr ''23'', JStr ''Ponce Municipio, Puerto Rico'', JStr ''72'', JStr ''113''])
     = Inr (Some (CountyRecord (JStr ''Ponce Municipio, Puerto Rico'') ''113'' ''72'' (Some (Num 23))))"
proof -
  let ?pr = "JArr [JStr ''22'', JStr ''Puerto Rico'', JStr ''72'']"
  have p: "process_rows sample_float ''state''
       [JArr [JStr ''21'', JStr ''California'', JStr ''06''], ?pr] []
     = Inr [StateRecord (JStr ''California'') ''06'' (Some (Num 21))]"
    by code_simp
  have g: "getitem ?pr 2 = Inr (JStr ''72'')"
    by code_simp
  have k: "\<not> has_key FIPS_TO_ABBREV ''72''"
    by code_simp
  have s: "''72'' \<noteq> ''state''"
    by simp
  have v: "cell_value sample_float (JStr ''23'') = Inr (Some (Num 23))"
    by code_simp
  have z: "zfill 3 ''113'' = ''113''" "zfill 2 ''72'' = ''72''"
    by code_simp+
  note t = state_rows_filtered_by_jurisdiction [where float_py = sample_float
      and rows = "[JArr [JStr ''21'', JStr ''California'', JStr ''06''], ?pr]"
      and records = "[StateRecord (JStr ''California'') ''06'' (Some (Num 21))]"
      and row = ?pr and code = "''72''" and geography_level = "''72''"
      and cell = "JStr ''23''" and v = "Some (Num 23)"
      and name = "JStr ''Ponce Municipio, Puerto Rico''" and sf = "''72''" and cf = "''113''"
      and rest = "[]"]
  from t p have a: "has_key FIPS_TO_ABBREV ''06''"
    by auto
  from t g k have b: "process_row sample_float ''state'' ?pr
      \<noteq> Inr (Some (StateRecord (JStr ''Puerto Rico'') ''72'' (Some (Num 22))))"
    by blast
  from t s v have c: "process_row sample_float ''72''
       (JArr [JStr ''23'', JStr ''Ponce Municipio, Puerto Rico'', JStr ''72'', JStr ''113''])
     = Inr (Some (CountyRecord (JStr ''Ponce Municipio, Puerto Rico'') ''113'' ''72'' (Some (Num 23))))"
    by (simp only: z simp_thms)
  from p a g k b s v c show ?thesis
    by (intro conjI)
qed

subsection \<open>Two successive fetches\<close>

text \<open>
  What the second of two successive calls returns. Take files of the form the program
  writes, a valid scope, and a second call made when the cache left by the first holds a
  fresh entry for the key. The second call sends no request, leaves the files as they
  are, and returns the list of the first call as \<open>read_record\<close> reads it back: each
  value \<^verbatim>\<open>None\<close> has become the float NaN, and nothing else has changed. A first call
  that was itself served from the cache has no \<^verbatim>\<open>None\<close> in its list, and the two lists
  are the same.
\<close>

lemma second_fetch_reads_back:
  fixes float_py float_py' :: "json \<Rightarrow> exn + 'v pyfloat"
  assumes "well_formed d"
      and "valid_scope geography_level"
      and "now \<le> later"
      and "map_of (load_cache
                     (disk_after (fetch_census_data float_py net d now metric_key geography_level))
                     later)
             (make_cache_key metric_key geography_level) = Some records"
  shows "(\<exists>first_records.
            returned (fetch_census_data float_py net d now metric_key geography_level)
              = Inr first_records \<and>
            map read_record first_records = records) \<and>
         fetch_census_data float_py' net'
             (disk_after (fetch_census_data float_py net d now metric_key geography_level))
             later metric_key geography_level =
           \<lparr>returned = Inr records,
            disk_after = disk_after (fetch_census_data float_py net d now metric_key geography_level),
            requests_sent = []\<rparr>"
proof
  let ?key = "make_cache_key metric_key geography_level"
  let ?out = "fetch_census_data float_py net d now metric_key geography_level"
  show "fetch_census_data float_py' net' (disk_after ?out) later metric_key geography_level =
           \<lparr>returned = Inr records, disk_after = disk_after ?out, requests_sent = []\<rparr>"
    using assms(4) by (rule fetch_hit)
  show "\<exists>first_records. returned ?out = Inr first_records \<and>
          map read_record first_records = records"
  proof (cases rule: fetch_outcome_cases [where float_py = float_py and net = net and d = d
        and now = now and metric_key = metric_key and geography_level = geography_level])
    case (hit rs)
    from assms(4) hit(3) have l: "map_of (load_cache d later) ?key = Some records"
      by simp
    have "map_of (load_cache d later) ?key = map_of (load_cache d now) ?key"
      using l load_file_later [OF assms(3), of read_state_record "state_cache_file d"]
        load_file_later [OF assms(3), of read_record "county_cache_file d"]
      unfolding map_of_load_cache_home [OF assms(1)]
      by (auto split: if_splits)
    with l hit(1) have eq: "rs = records" by simp
    have "map read_record rs = rs"
    proof (cases "endswith ?key ''_state''")
      case True
      from loaded_state_entry(4) [OF assms(1) True hit(1)] show ?thesis .
    next
      case False
      from loaded_county_entry(2) [OF assms(1) False hit(1)] show ?thesis .
    qed
    with eq hit(2) show ?thesis by simp
  next
    case unchanged
    from miss_later [OF assms(3) unchanged(1)] assms(4) unchanged(2) show ?thesis
      by simp
  next
    case (written rows rs)
    from processed_shape [OF written(2)] valid_scope_key [OF assms(2), of metric_key]
    have shape: "\<forall>r \<in> set rs. state_shaped r \<longleftrightarrow> endswith ?key ''_state''"
      and norm: "endswith ?key ''_state'' \<Longrightarrow> map read_state_record rs = map read_record rs"
      by (auto simp: read_state_record_fixed split: if_splits)
    show ?thesis
    proof (cases "later - now < cache_duration")
      case True
      from load_after_update [OF assms(1) written(1) shape assms(3) True, of ?key]
        assms(4) written(4) norm
      have "map read_record rs = records"
        by (auto split: if_splits)
      with written(3) show ?thesis by simp
    next
      case False
      from own_key_after_window [OF assms(1) written(1) shape assms(3) False]
        assms(4) written(4)
      show ?thesis by simp
    qed
  qed
qed

text \<open>
  Claim C2 says that two successive calls within the retention window return identical
  record lists, absent values included, the second without a request. Below, the cache
  is empty and the response has a row whose value is the dash. The first call returns
  that row with the value \<^verbatim>\<open>None\<close> (line 214) and writes the entry; the second call, one
  microsecond later, sends no request and returns the same row with the value NaN, as
  \<^verbatim>\<open>read_csv\<close> gives it. The two lists differ, and \<^verbatim>\<open>item['value'] is not None\<close> at
  line 538 of the caller holds for the second and not for the first.
\<close>

theorem second_fetch_returns_nan_for_none:
  "returned (fetch_census_data sample_float
       (replies (JArr [JArr [JStr ''DP03_0119PE'', JStr ''NAME'', JStr ''state''],
                       JArr [JStr ''12'', JStr ''Alabama'', JStr ''1''],
                       JArr [JStr ''-'', JStr ''Alaska'', JStr ''02'']]))
       no_files 5 ''Poverty Rate'' ''state'')
     = Inr [StateRecord (JStr ''Alabama'') ''01'' (Some (Num 12)),
            StateRecord (JStr ''Alaska'') ''02'' None] \<and>
   fetch_census_data sample_float offline
       (disk_after (fetch_census_data sample_float
          (replies (JArr [JArr [JStr ''DP03_0119PE'', JStr ''NAME'', JStr ''state''],
                          JArr [JStr ''12'', JStr ''Alabama'', JStr ''1''],
                          JArr [JStr ''-'', JStr ''Alaska'', JStr ''02'']]))
          no_files 5 ''Poverty Rate'' ''state''))
       6 ''Poverty Rate'' ''state''
     = \<lparr>returned = Inr [StateRecord (JStr ''Alabama'') ''01'' (Some (Num 12)),
                       StateRecord (JStr ''Alaska'') ''02'' (Some NaN)],
        disk_after = disk_after (fetch_census_data sample_float
          (replies (JArr [JArr [JStr ''DP03_0119PE'', JStr ''NAME'', JStr ''state''],
                          JArr [JStr ''12'', JStr ''Alabama'', JStr ''1''],
                          JArr [JStr ''-'', JStr ''Alaska'', JStr ''02'']]))
          no_files 5 ''Poverty Rate'' ''state''),
        requests_sent = []\<rparr>"
  by code_simp

subsection \<open>What a write does to the other entries\<close>

text \<open>
  Claim C9 says that a put touches the entry of its own key only and that an expired
  entry is never removed by an operation on another key. \<open>save_cache\<close> rewrites a file
  from what \<open>load_cache\<close> returns, which leaves out the entries of an expired file: below,
  the fetch of one metric removes the expired entry of another from the state file.
\<close>

theorem expired_entry_purged_by_other_key:
  "disk_after (fetch_census_data sample_float
       (replies (JArr [JArr [JStr ''DP03_0119PE'', JStr ''NAME'', JStr ''state''],
                       JArr [JStr ''12'', JStr ''Alaska'', JStr ''02'']]))
       (state_file_only [state_row ''Median Household Income_state'' 0 ''Alabama'' ''01'' 50000])
       cache_duration ''Poverty Rate'' ''state'')
     = state_file_only [state_row ''Poverty Rate_state'' cache_duration ''Alaska'' ''02'' 12]"
  by code_simp

text \<open>
  Claim C9, amended. A put that follows a miss, on files of the form the program writes,
  leaves every other key as it was read at the time of the put, and readable for the
  whole retention window from that time on: the entries that were fresh survive with
  their records. A file that the put rewrites holds rows stamped with the time of the
  put only, for the new key and for keys that were fresh at that time: the entries of an
  expired file are dropped from it, and they stay on disk only as long as no put rewrites
  their file.
\<close>

theorem update_keeps_fresh_entries:
  assumes "well_formed d"
      and "map_of (load_cache d now) cache_key = None"
      and "\<forall>r \<in> set records. state_shaped r \<longleftrightarrow> endswith cache_key ''_state''"
      and "now \<le> later" and "later - now < cache_duration"
      and "key \<noteq> cache_key"
  shows "map_of (load_cache (update_cache d now (load_cache d now) cache_key records) later) key
           = map_of (load_cache d now) key \<and>
         (state_cache_file (update_cache d now (load_cache d now) cache_key records)
            \<noteq> state_cache_file d \<longrightarrow>
          (\<forall>x \<in> set (file_rows
                       (state_cache_file (update_cache d now (load_cache d now) cache_key records))).
             row_timestamp x = Some now \<and>
             (row_cache_key x = cache_key \<or>
              map_of (load_cache d now) (row_cache_key x) \<noteq> None))) \<and>
         (county_cache_file (update_cache d now (load_cache d now) cache_key records)
            \<noteq> county_cache_file d \<longrightarrow>
          (\<forall>x \<in> set (file_rows
                       (county_cache_file (update_cache d now (load_cache d now) cache_key records))).
             row_timestamp x = Some now \<and>
             (row_cache_key x = cache_key \<or>
              map_of (load_cache d now) (row_cache_key x) \<noteq> None)))"
proof (intro conjI)
  from load_after_update [OF assms(1,2,3,4,5), of key] assms(6)
  show "map_of (load_cache (update_cache d now (load_cache d now) cache_key records) later) key
           = map_of (load_cache d now) key"
    by simp
next
  let ?E = "dict_update (load_cache d now) (AList.update cache_key records (load_cache d now))"
  have rows: "row_timestamp x = Some now \<and>
      (row_cache_key x = cache_key \<or> map_of (load_cache d now) (row_cache_key x) \<noteq> None)"
    if "x \<in> set (cache_rows now (filter (\<lambda>(key, records). P key) ?E))" for x P
  proof -
    from that obtain k rs where "(k, rs) \<in> set ?E" "row_cache_key x = k"
        "row_timestamp x = Some now"
      by (auto simp: in_cache_rows)
    with in_existing [of k rs d now cache_key records] show ?thesis
      by auto
  qed
  let ?d' = "update_cache d now (load_cache d now) cache_key records"
  show "state_cache_file ?d' \<noteq> state_cache_file d \<longrightarrow>
          (\<forall>x \<in> set (file_rows (state_cache_file ?d')).
             row_timestamp x = Some now \<and>
             (row_cache_key x = cache_key \<or>
              map_of (load_cache d now) (row_cache_key x) \<noteq> None))"
    using rows [of _ "\<lambda>key. endswith key ''_state''"]
    by (auto simp: update_cache_def save_cache_state_file Let_def file_rows_def
        split: if_splits)
  show "county_cache_file ?d' \<noteq> county_cache_file d \<longrightarrow>
          (\<forall>x \<in> set (file_rows (county_cache_file ?d')).
             row_timestamp x = Some now \<and>
             (row_cache_key x = cache_key \<or>
              map_of (load_cache d now) (row_cache_key x) \<noteq> None))"
    using rows [of _ "\<lambda>key. \<not> endswith key ''_state''"]
    by (auto simp: update_cache_def save_cache_county_file Let_def file_rows_def
        split: if_splits)
qed

text \<open>The theorem at a state file holding a fresh entry of another metric: the entry
  is carried over into the rewritten file with the new timestamp.\<close>

theorem update_keeps_fresh_entries_witness:
  "well_formed (state_file_only [state_row ''Unemployment Rate_state'' 3 ''Alabama'' ''01'' 4]) \<and>
   map_of (load_cache (state_file_only [state_row ''Unemployment Rate_state'' 3 ''Alabama'' ''01'' 4]) 5)
     ''Poverty Rate_state'' = None \<and>
   state_shaped (StateRecord (JStr ''Alaska'') ''02'' (Some (Num (12::int)))) \<and>
   endswith ''Poverty Rate_state'' ''_state'' \<and>
   (5::int) \<le> 6 \<and> (6::int) - 5 < cache_duration \<and>
   ''Unemployment Rate_state'' \<noteq> ''Poverty Rate_state'' \<and>
   map_of (load_cache
       (update_cache (state_file_only [state_row ''Unemployment Rate_state'' 3 ''Alabama'' ''01'' 4]) 5
          (load_cache (state_file_only [state_row ''Unemployment Rate_state'' 3 ''Alabama'' ''01'' 4]) 5)
          ''Poverty Rate_state'' [StateRecord (JStr ''Alaska'') ''02'' (Some (Num 12))]) 6)
     ''Unemployment Rate_state''
     = Some [StateRecord (JStr ''Alabama'') ''01'' (Some (Num 4))] \<and>
   state_cache_file
       (update_cache (state_file_only [state_row ''Unemployment Rate_state'' 3 ''Alabama'' ''01'' 4]) 5
          (load_cache (state_file_only [state_row ''Unemployment Rate_state'' 3 ''Alabama'' ''01'' 4]) 5)
          ''Poverty Rate_state'' [StateRecord (JStr ''Alaska'') ''02'' (Some (Num 12))])
     = Table [state_row ''Unemployment Rate_state'' 5 ''Alabama'' ''01'' 4,
              state_row ''Poverty Rate_state'' 5 ''Alaska'' ''02'' 12] \<and>
   row_timestamp (state_row ''Unemployment Rate_state'' 5 ''Alabama'' ''01'' 4) = Some 5 \<and>
   map_of (load_cache (state_file_only [state_row ''Unemployment Rate_state'' 3 ''Alabama'' ''01'' 4]) 5)
     (row_cache_key (state_row ''Unemployment Rate_state'' 5 ''Alabama'' ''01'' 4)) \<noteq> None"
proof -
  let ?d = "state_file_only [state_row ''Unemployment Rate_state'' 3 ''Alabama'' ''01'' 4]"
  let ?recs = "[StateRecord (JStr ''Alaska'') ''02'' (Some (Num (12::int)))]"
  let ?x = "state_row ''Unemployment Rate_state'' 5 ''Alabama'' ''01'' 4"
  have w: "well_formed ?d"
    by code_simp
  have m: "map_of (load_cache ?d 5) ''Poverty Rate_state'' = None"
    by code_simp
  have s1: "state_shaped (StateRecord (JStr ''Alaska'') ''02'' (Some (Num (12::int))))"
    by simp
  have s2: "endswith ''Poverty Rate_state'' ''_state''"
    by code_simp
  from s1 s2
  have s: "\<forall>r \<in> set ?recs. state_shaped r \<longleftrightarrow> endswith ''Poverty Rate_state'' ''_state''"
    by simp
  have l: "(5::int) \<le> 6" "(6::int) - 5 < cache_duration"
    by (simp_all add: cache_duration_def)
  have k: "''Unemployment Rate_state'' \<noteq> ''Poverty Rate_state''"
    by simp
  have b: "map_of (load_cache ?d 5) ''Unemployment Rate_state''
      = Some [StateRecord (JStr ''Alabama'') ''01'' (Some (Num 4))]"
    by code_simp
  have f: "state_cache_file (update_cache ?d 5 (load_cache ?d 5) ''Poverty Rate_state'' ?recs)
     = Table [?x, state_row ''Poverty Rate_state'' 5 ''Alaska'' ''02'' 12]"
    by code_simp
  note t = update_keeps_fresh_entries [OF w m s l k]
  from t [THEN conjunct1] b
  have a: "map_of (load_cache (update_cache ?d 5 (load_cache ?d 5) ''Poverty Rate_state'' ?recs) 6)
     ''Unemployment Rate_state'' = Some [StateRecord (JStr ''Alabama'') ''01'' (Some (Num 4))]"
    by simp
  have n: "state_cache_file (update_cache ?d 5 (load_cache ?d 5) ''Poverty Rate_state'' ?recs)
      \<noteq> state_cache_file ?d"
    by code_simp
  have "?x \<in> set (file_rows (state_cache_file
      (update_cache ?d 5 (load_cache ?d 5) ''Poverty Rate_state'' ?recs)))"
    by (simp add: f file_rows_def)
  with t [THEN conjunct2, THEN conjunct1] n
  have r: "row_timestamp ?x = Some 5 \<and>
      (row_cache_key ?x = ''Poverty Rate_state'' \<or>
       map_of (load_cache ?d 5) (row_cache_key ?x) \<noteq> None)"
    by blast
  have "row_cache_key ?x \<noteq> ''Poverty Rate_state''"
    by (simp add: state_row_def)
  with r have r1: "row_timestamp ?x = Some 5"
    and r2: "map_of (load_cache ?d 5) (row_cache_key ?x) \<noteq> None"
    by blast+
  from w m s1 s2 l k a f r1 r2 show ?thesis
    by (intro conjI)
qed

end
